theory Spec2Isabelle
  imports Main "HOL-Library.AList" "HOL-Library.Multiset" "HOL-Library.Char_ord"
    "HOL-Library.List_Lexorder" "HOL-Library.Product_Lexorder"
begin

chapter \<open>The model of the program\<close>

section \<open>JSON values and Python dictionaries\<close>

text \<open>
  The queue, block, result and error records are Python dictionaries obtained from
  \<^verbatim>\<open>json.loads\<close>. A JSON value is modelled by the datatype below (floating point
  numbers are left out); a dictionary is an association list in insertion order, as a
  Python \<^verbatim>\<open>dict\<close> is. A Python \<^verbatim>\<open>str\<close> is an Isabelle \<open>string\<close>, one
  \<open>char\<close> per code point.
\<close>

datatype json =
    JNull
  | JBool bool
  | JInt int
  | JStr string
  | JList "json list"
  | JDict "(string \<times> json) list"

type_synonym pydict = "(string \<times> json) list"

text \<open>\<^verbatim>\<open>d.get(k)\<close>: the value stored under \<open>k\<close>, \<^verbatim>\<open>None\<close> when the key is absent.\<close>

definition dict_get :: "pydict \<Rightarrow> string \<Rightarrow> json" where
  "dict_get d k = (case map_of d k of None \<Rightarrow> JNull | Some v \<Rightarrow> v)"

text \<open>\<^verbatim>\<open>d.get(k, default)\<close>.\<close>

definition dict_get_default :: "pydict \<Rightarrow> string \<Rightarrow> json \<Rightarrow> json" where
  "dict_get_default d k dflt = (case map_of d k of None \<Rightarrow> dflt | Some v \<Rightarrow> v)"

text \<open>\<^verbatim>\<open>d[k] = v\<close>: an existing key keeps its position, a new key goes last.\<close>

definition dict_set :: "pydict \<Rightarrow> string \<Rightarrow> json \<Rightarrow> pydict" where
  "dict_set d k v = AList.update k v d"

text \<open>The exceptions that the modelled functions raise or let through.\<close>

datatype rule = TextLength | Encoding | SizeBound | SizeTolerance | HashMismatch | SequenceRange

datatype py_error =
    TypeError
  | AttributeError
  | ValueError
  | RecursionError
  | OverflowError
  | UnicodeError
  | LookupError
  | UnicodeDecodeError
  | UnicodeEncodeError
  | FileNotFoundError
  | OSError
  | JSONDecodeError
  | ValidationError
  | BlockValidationError rule

section \<open>Task lifecycle (queue\_manager.py: mark\_in\_progress, mark\_done, mark\_error)\<close>

text \<open>
  The three functions return nothing and contain no \<^verbatim>\<open>raise\<close>; each path ends in one
  log call. The model returns the task list after the call together with the path taken:
  \<open>NotFound\<close> (\<^verbatim>\<open>logger.error("... not found")\<close>), \<open>NoChange\<close>
  (\<^verbatim>\<open>logger.info("... already ... (no change)")\<close>), \<open>Rejected\<close>
  (\<^verbatim>\<open>logger.error("Cannot mark ...")\<close>) and \<open>Marked\<close>
  (\<^verbatim>\<open>logger.info("... marked as ...")\<close>). The dictionaries of the list are distinct
  objects (as \<^verbatim>\<open>load_queue\<close> builds them), so mutating the task found changes one
  position of the list.
\<close>

datatype outcome = NotFound | NoChange | Rejected | Marked

text \<open>\<^verbatim>\<open>t.get("id") == task_id\<close>, with \<^verbatim>\<open>task_id\<close> a string.\<close>

definition has_id :: "string \<Rightarrow> pydict \<Rightarrow> bool" where
  "has_id task_id t = (dict_get t ''id'' = JStr task_id)"

text \<open>
  \<^verbatim>\<open>next((t for t in items if ...), None)\<close> is \<^const>\<open>List.find\<close>; the mutation of
  that first match is \<open>update_first\<close>.
\<close>

fun update_first :: "('a \<Rightarrow> bool) \<Rightarrow> ('a \<Rightarrow> 'a) \<Rightarrow> 'a list \<Rightarrow> 'a list" where
  "update_first P f [] = []"
| "update_first P f (x # xs) = (if P x then f x # xs else x # update_first P f xs)"

definition set_in_progress :: "pydict \<Rightarrow> pydict" where
  "set_in_progress task = dict_set task ''status'' (JStr ''in_progress'')"

definition mark_in_progress :: "pydict list \<Rightarrow> string \<Rightarrow> pydict list \<times> outcome" where
  "mark_in_progress items task_id =
     (case List.find (has_id task_id) items of
        None \<Rightarrow> (items, NotFound)
      | Some task \<Rightarrow>
          (let current_status = dict_get task ''status'' in
           if current_status = JStr ''in_progress'' then (items, NoChange)
           else if current_status = JStr ''done'' \<or> current_status = JStr ''error''
             then (items, Rejected)
           else (update_first (has_id task_id) set_in_progress items, Marked)))"

definition set_done :: "string \<Rightarrow> string \<Rightarrow> pydict \<Rightarrow> pydict" where
  "set_done result_path completed_at task =
     dict_set (dict_set (dict_set (dict_set (dict_set task
       ''status'' (JStr ''done''))
       ''result_path'' (JStr result_path))
       ''completed_at'' (JStr completed_at))
       ''error_path'' JNull)
       ''error_msg'' JNull"

definition mark_done :: "pydict list \<Rightarrow> string \<Rightarrow> string \<Rightarrow> string \<Rightarrow> pydict list \<times> outcome" where
  "mark_done items task_id result_path completed_at =
     (case List.find (has_id task_id) items of
        None \<Rightarrow> (items, NotFound)
      | Some task \<Rightarrow>
          (let current_status = dict_get task ''status'' in
           if current_status = JStr ''done'' then (items, NoChange)
           else if current_status = JStr ''error'' then (items, Rejected)
           else (update_first (has_id task_id) (set_done result_path completed_at) items, Marked)))"

definition set_error :: "string \<Rightarrow> string \<Rightarrow> string \<Rightarrow> pydict \<Rightarrow> pydict" where
  "set_error error_msg error_path completed_at task =
     dict_set (dict_set (dict_set (dict_set (dict_set task
       ''status'' (JStr ''error''))
       ''error_msg'' (JStr error_msg))
       ''error_path'' (JStr error_path))
       ''completed_at'' (JStr completed_at))
       ''result_path'' JNull"

definition mark_error ::
  "pydict list \<Rightarrow> string \<Rightarrow> string \<Rightarrow> string \<Rightarrow> string \<Rightarrow> pydict list \<times> outcome" where
  "mark_error items task_id error_msg error_path completed_at =
     (case List.find (has_id task_id) items of
        None \<Rightarrow> (items, NotFound)
      | Some task \<Rightarrow>
          (let current_status = dict_get task ''status'' in
           if current_status = JStr ''error'' then (items, NoChange)
           else if current_status = JStr ''done'' then (items, Rejected)
           else (update_first (has_id task_id) (set_error error_msg error_path completed_at) items,
                 Marked)))"

text \<open>
  The record invariant of the data model: once the status is terminal exactly one of
  \<^verbatim>\<open>result_path\<close> and \<^verbatim>\<open>error_path\<close> is non-null; while it is \<^verbatim>\<open>pending\<close> or
  \<^verbatim>\<open>in_progress\<close> both are null. A field is null when its key is absent or holds
  \<^verbatim>\<open>None\<close>.
\<close>

definition task_invariant :: "pydict \<Rightarrow> bool" where
  "task_invariant t =
     (let s = dict_get t ''status'';
          r = dict_get t ''result_path'';
          e = dict_get t ''error_path''
      in if s = JStr ''done'' \<or> s = JStr ''error'' then (r \<noteq> JNull) \<noteq> (e \<noteq> JNull)
         else if s = JStr ''pending'' \<or> s = JStr ''in_progress'' then r = JNull \<and> e = JNull
         else True)"

text \<open>The status of a task record is one of the four values of the enumeration.\<close>

definition status_declared :: "pydict \<Rightarrow> bool" where
  "status_declared t =
     (dict_get t ''status'' = JStr ''pending'' \<or> dict_get t ''status'' = JStr ''in_progress'' \<or>
      dict_get t ''status'' = JStr ''done'' \<or> dict_get t ''status'' = JStr ''error'')"

section \<open>Selecting pending tasks (queue\_manager.py: \_parse\_datetime, iter\_pending)\<close>

text \<open>
  \<^verbatim>\<open>str.strip()\<close> removes leading and trailing white space: the code points for which
  \<^verbatim>\<open>str.isspace\<close> holds (those below 256 are listed).
\<close>

definition is_space :: "char \<Rightarrow> bool" where
  "is_space c =
     (let n = (of_char c :: nat)
      in (9 \<le> n \<and> n \<le> 13) \<or> (28 \<le> n \<and> n \<le> 32) \<or> n = 133 \<or> n = 160)"

definition strip :: "string \<Rightarrow> string" where
  "strip s = rev (dropWhile is_space (rev (dropWhile is_space s)))"

definition endswith_Z :: "string \<Rightarrow> bool" where
  "endswith_Z s = (s \<noteq> [] \<and> last s = CHR ''Z'')"

text \<open>
  A \<^verbatim>\<open>datetime\<close> is naive (no time zone) or aware; its integer is the position on the
  time line in microseconds (wall-clock time for a naive value, UTC for an aware one).
  Python compares two naive or two aware values by that position, finds a naive and an
  aware value unequal, and raises \<^verbatim>\<open>TypeError\<close> when asked to order them.
\<close>

datatype datetime = Naive int | Aware int

text \<open>What \<^verbatim>\<open>_parse_datetime\<close> returns: \<^verbatim>\<open>None\<close>, a string or a \<^verbatim>\<open>datetime\<close>.\<close>

datatype created_key = KNone | KStr string | KDate datetime

text \<open>
  The two library parsers are parameters: \<open>fromisoformat\<close> is
  \<^verbatim>\<open>datetime.fromisoformat\<close> and \<open>strptime\<close> is
  \<^verbatim>\<open>datetime.strptime(_, "%Y-%m-%dT%H:%M:%S")\<close>, with \<open>None\<close> for the exception that
  the source catches. A value that is neither \<^verbatim>\<open>None\<close> nor a string has no
  \<^verbatim>\<open>strip\<close> method.
\<close>

definition parse_datetime ::
  "(string \<Rightarrow> datetime option) \<Rightarrow> (string \<Rightarrow> datetime option) \<Rightarrow> json \<Rightarrow> py_error + created_key"
  where
  "parse_datetime fromisoformat strptime v =
     (case v of
        JNull \<Rightarrow> Inr KNone
      | JStr raw \<Rightarrow>
          (let dt = strip raw in
           if dt = [] then Inr (KStr dt)
           else
             (case (if endswith_Z dt then fromisoformat (butlast dt @ ''+00:00'')
                    else fromisoformat dt) of
                Some d \<Rightarrow> Inr (KDate d)
              | None \<Rightarrow>
                  (case strptime dt of
                     Some d \<Rightarrow> Inr (KDate d)
                   | None \<Rightarrow> Inr (KStr dt))))
      | _ \<Rightarrow> Inl AttributeError)"

text \<open>\<^verbatim>\<open>-task.get("priority", 0)\<close>: negation is defined on integers and Booleans.\<close>

definition neg_priority :: "json \<Rightarrow> py_error + int" where
  "neg_priority p =
     (case p of
        JInt n \<Rightarrow> Inr (- n)
      | JBool b \<Rightarrow> Inr (- (if b then 1 else 0))
      | _ \<Rightarrow> Inl TypeError)"

definition pending_key ::
  "(string \<Rightarrow> datetime option) \<Rightarrow> (string \<Rightarrow> datetime option) \<Rightarrow> pydict
     \<Rightarrow> py_error + (int \<times> created_key)" where
  "pending_key fromisoformat strptime task =
     (case neg_priority (dict_get_default task ''priority'' (JInt 0)) of
        Inl e \<Rightarrow> Inl e
      | Inr p \<Rightarrow>
          (case parse_datetime fromisoformat strptime (dict_get task ''created_at'') of
             Inl e \<Rightarrow> Inl e
           | Inr k \<Rightarrow> Inr (p, k)))"

text \<open>Python's \<^verbatim>\<open><\<close> on strings: lexicographic by code point.\<close>

fun str_less :: "string \<Rightarrow> string \<Rightarrow> bool" where
  "str_less [] [] = False"
| "str_less [] (b # bs) = True"
| "str_less (a # as) [] = False"
| "str_less (a # as) (b # bs) =
     (if a = b then str_less as bs else (of_char a :: nat) < of_char b)"

text \<open>
  Python's \<^verbatim>\<open><\<close> on the second components of two keys. Strings compare with strings,
  naive values with naive values, aware values with aware values; every other pair
  raises \<^verbatim>\<open>TypeError\<close>.
\<close>

fun key_less :: "created_key \<Rightarrow> created_key \<Rightarrow> py_error + bool" where
  "key_less (KStr a) (KStr b) = Inr (str_less a b)"
| "key_less (KDate (Naive a)) (KDate (Naive b)) = Inr (a < b)"
| "key_less (KDate (Aware a)) (KDate (Aware b)) = Inr (a < b)"
| "key_less _ _ = Inl TypeError"

text \<open>
  Python's \<^verbatim>\<open><\<close> on the key tuples: the first position where the tuples differ (by
  \<^verbatim>\<open>==\<close>, which never raises) decides, and equal tuples are not less.
\<close>

definition tuple_less :: "int \<times> created_key \<Rightarrow> int \<times> created_key \<Rightarrow> py_error + bool" where
  "tuple_less a b =
     (if fst a \<noteq> fst b then Inr (fst a < fst b)
      else if snd a = snd b then Inr False
      else key_less (snd a) (snd b))"

text \<open>
  \<^verbatim>\<open>list.sort(key=...)\<close> computes every key first, in list order, and then sorts stably
  using \<^verbatim>\<open><\<close> on the keys alone; an exception raised by a key or by a comparison leaves
  the call. The sort is modelled as the insertion sort that CPython runs on short lists:
  each element in turn is placed into the sorted prefix, after the elements it is not
  less than.
\<close>

fun keyed ::
  "(string \<Rightarrow> datetime option) \<Rightarrow> (string \<Rightarrow> datetime option) \<Rightarrow> pydict list
     \<Rightarrow> py_error + ((int \<times> created_key) \<times> pydict) list" where
  "keyed fromisoformat strptime [] = Inr []"
| "keyed fromisoformat strptime (task # rest) =
     (case pending_key fromisoformat strptime task of
        Inl e \<Rightarrow> Inl e
      | Inr k \<Rightarrow>
          (case keyed fromisoformat strptime rest of
             Inl e \<Rightarrow> Inl e
           | Inr ks \<Rightarrow> Inr ((k, task) # ks)))"

fun insert_sorted ::
  "(int \<times> created_key) \<times> 'a \<Rightarrow> ((int \<times> created_key) \<times> 'a) list
     \<Rightarrow> py_error + ((int \<times> created_key) \<times> 'a) list" where
  "insert_sorted x [] = Inr [x]"
| "insert_sorted x (y # ys) =
     (case tuple_less (fst x) (fst y) of
        Inl e \<Rightarrow> Inl e
      | Inr lt \<Rightarrow>
          if lt then Inr (x # y # ys)
          else (case insert_sorted x ys of Inl e \<Rightarrow> Inl e | Inr r \<Rightarrow> Inr (y # r)))"

fun sort_loop ::
  "((int \<times> created_key) \<times> 'a) list \<Rightarrow> ((int \<times> created_key) \<times> 'a) list
     \<Rightarrow> py_error + ((int \<times> created_key) \<times> 'a) list" where
  "sort_loop acc [] = Inr acc"
| "sort_loop acc (x # xs) =
     (case insert_sorted x acc of Inl e \<Rightarrow> Inl e | Inr acc' \<Rightarrow> sort_loop acc' xs)"

definition iter_pending ::
  "(string \<Rightarrow> datetime option) \<Rightarrow> (string \<Rightarrow> datetime option) \<Rightarrow> pydict list
     \<Rightarrow> py_error + pydict list" where
  "iter_pending fromisoformat strptime items =
     (let pending = filter (\<lambda>task. dict_get task ''status'' = JStr ''pending'') items in
      case keyed fromisoformat strptime pending of
        Inl e \<Rightarrow> Inl e
      | Inr ks \<Rightarrow>
          (case sort_loop [] ks of
             Inl e \<Rightarrow> Inl e
           | Inr sorted_ks \<Rightarrow> Inr (map snd sorted_ks)))"

text \<open>
  Python can order two keys when \<^verbatim>\<open><\<close> on them raises nothing.
\<close>

definition comparable :: "(int \<times> created_key) set \<Rightarrow> bool" where
  "comparable K = (\<forall>a\<in>K. \<forall>b\<in>K. \<exists>r. tuple_less a b = Inr r)"

text \<open>
  A total order on all keys that agrees with Python's \<^verbatim>\<open><\<close> wherever that is defined:
  by the first component, then by the kind of the second (\<^verbatim>\<open>None\<close>, string, naive,
  aware), then by its value; and the insertion of the sort written with that order.
\<close>

fun rank :: "int \<times> created_key \<Rightarrow> int \<times> nat \<times> int \<times> string" where
  "rank (p, KNone) = (p, 0, 0, [])"
| "rank (p, KStr s) = (p, 1, 0, s)"
| "rank (p, KDate (Naive n)) = (p, 2, n, [])"
| "rank (p, KDate (Aware n)) = (p, 3, n, [])"

fun place ::
  "(int \<times> created_key) \<times> 'a \<Rightarrow> ((int \<times> created_key) \<times> 'a) list
     \<Rightarrow> ((int \<times> created_key) \<times> 'a) list" where
  "place x [] = [x]"
| "place x (y # ys) = (if rank (fst x) < rank (fst y) then x # y # ys else y # place x ys)"

section \<open>The queue file (queue\_manager.py: load\_queue, save\_queue\_atomic)\<close>

text \<open>
  The file system is a map from paths to the contents of the files, each a list of bytes
  (one \<open>char\<close> per byte). The text that Python reads from and writes to the queue file
  is a list of code points; between the two stands the UTF-8 codec of
  \<^verbatim>\<open>open(..., encoding="utf-8")\<close>, written out below.
\<close>

type_synonym path = string

type_synonym filesystem = "path \<Rightarrow> string option"

type_synonym pytext = "nat list"

text \<open>The code points of a text of the 8-bit range, for literals.\<close>

definition cp :: "string \<Rightarrow> pytext" where
  "cp s = map of_char s"

text \<open>
  The strict UTF-8 encoder: one to four bytes for a code point; a surrogate
  (U+D800 to U+DFFF) cannot be encoded, and \<^verbatim>\<open>write\<close> raises
  \<^verbatim>\<open>UnicodeEncodeError\<close> for a text that holds one.
\<close>

definition surrogate :: "nat \<Rightarrow> bool" where
  "surrogate c = (0xD800 \<le> c \<and> c \<le> 0xDFFF)"

definition utf8_encode_char :: "nat \<Rightarrow> string option" where
  "utf8_encode_char c =
     (if c < 0x80 then Some [char_of c]
      else if c < 0x800 then Some [char_of (0xC0 + c div 0x40), char_of (0x80 + c mod 0x40)]
      else if c < 0x10000 then
        (if surrogate c then None
         else Some [char_of (0xE0 + c div 0x1000), char_of (0x80 + c div 0x40 mod 0x40),
                    char_of (0x80 + c mod 0x40)])
      else if c < 0x110000 then
        Some [char_of (0xF0 + c div 0x40000), char_of (0x80 + c div 0x1000 mod 0x40),
              char_of (0x80 + c div 0x40 mod 0x40), char_of (0x80 + c mod 0x40)]
      else None)"

fun utf8_encode :: "pytext \<Rightarrow> string option" where
  "utf8_encode [] = Some []"
| "utf8_encode (c # cs) =
     (case utf8_encode_char c of
        None \<Rightarrow> None
      | Some b \<Rightarrow> (case utf8_encode cs of None \<Rightarrow> None | Some bs \<Rightarrow> Some (b @ bs)))"

text \<open>A text that the encoder accepts: no surrogate, nothing beyond U+10FFFF.\<close>

definition encodable :: "pytext \<Rightarrow> bool" where
  "encodable s = (\<forall>c\<in>set s. \<not> surrogate c \<and> c < 0x110000)"

text \<open>
  The strict UTF-8 decoder: it rejects a stray continuation byte, a truncated sequence,
  an overlong form, an encoded surrogate and a code point beyond U+10FFFF; reading such
  bytes raises \<^verbatim>\<open>UnicodeDecodeError\<close>.
\<close>

definition continuation :: "char \<Rightarrow> bool" where
  "continuation b = (0x80 \<le> (of_char b :: nat) \<and> (of_char b :: nat) \<le> 0xBF)"

fun utf8_decode :: "string \<Rightarrow> pytext option" where
  "utf8_decode [] = Some []"
| "utf8_decode (b # bs) =
     (let n = (of_char b :: nat) in
      if n < 0x80 then map_option (Cons n) (utf8_decode bs)
      else if 0xC2 \<le> n \<and> n \<le> 0xDF then
        (case bs of
           b1 # r \<Rightarrow>
             if continuation b1
             then map_option (Cons ((n - 0xC0) * 0x40 + (of_char b1 - 0x80))) (utf8_decode r)
             else None
         | _ \<Rightarrow> None)
      else if 0xE0 \<le> n \<and> n \<le> 0xEF then
        (case bs of
           b1 # b2 # r \<Rightarrow>
             (let c = (n - 0xE0) * 0x1000 + (of_char b1 - 0x80) * 0x40 + (of_char b2 - 0x80) in
              if continuation b1 \<and> continuation b2 \<and> 0x800 \<le> c \<and> \<not> surrogate c
              then map_option (Cons c) (utf8_decode r)
              else None)
         | _ \<Rightarrow> None)
      else if 0xF0 \<le> n \<and> n \<le> 0xF4 then
        (case bs of
           b1 # b2 # b3 # r \<Rightarrow>
             (let c = (n - 0xF0) * 0x40000 + (of_char b1 - 0x80) * 0x1000 +
                      (of_char b2 - 0x80) * 0x40 + (of_char b3 - 0x80) in
              if continuation b1 \<and> continuation b2 \<and> continuation b3 \<and>
                 0x10000 \<le> c \<and> c < 0x110000
              then map_option (Cons c) (utf8_decode r)
              else None)
         | _ \<Rightarrow> None)
      else None)"

text \<open>
  The JSON library and the schema are parameters, and so is the type \<open>'r\<close> of the JSON
  values (the functions of this section never look inside a record). \<open>loads\<close> is
  \<^verbatim>\<open>json.loads\<close>: it returns a value, raises \<^verbatim>\<open>json.JSONDecodeError\<close> (which
  \<^verbatim>\<open>load_queue\<close> catches), or raises another exception (\<^verbatim>\<open>ValueError\<close> for an
  integer literal beyond the conversion limit, \<^verbatim>\<open>RecursionError\<close> for deep nesting).
  \<open>dumps\<close> is \<^verbatim>\<open>json.dumps(_, ensure_ascii=False)\<close> with the exception it raises for
  a value that it cannot serialise. \<open>valid\<close> says whether \<^verbatim>\<open>jsonschema.validate\<close>
  accepts a value under the queue line schema.
\<close>

datatype 'r parsed = Parsed 'r | NotJSON | ParserRaises py_error

text \<open>
  Iterating over a file opened in text mode yields its lines, each with its line end;
  the line ends \<^verbatim>\<open>\n\<close> (code point 10), \<^verbatim>\<open>\r\n\<close> and \<^verbatim>\<open>\r\<close> (13) all arrive as
  \<^verbatim>\<open>\n\<close>, and a last line may have none.
\<close>

fun text_lines :: "pytext \<Rightarrow> pytext list" where
  "text_lines [] = []"
| "text_lines [c] = (if c = 13 \<or> c = 10 then [[10]] else [[c]])"
| "text_lines (c # d # ds) =
     (if c = 13 \<and> d = 10 then [10] # text_lines ds
      else if c = 13 \<or> c = 10 then [10] # text_lines (d # ds)
      else (case text_lines (d # ds) of
              [] \<Rightarrow> [[c]]
            | l # ls \<Rightarrow> (c # l) # ls))"

text \<open>\<^verbatim>\<open>line.rstrip("\n\r")\<close>.\<close>

definition rstrip_newlines :: "pytext \<Rightarrow> pytext" where
  "rstrip_newlines s = rev (dropWhile (\<lambda>c. c = 10 \<or> c = 13) (rev s))"

text \<open>
  The log of a load: a line that is not JSON, a line that the schema rejects (each with
  its line number, counted from 1 over all lines), and the closing summary with the
  numbers of loaded and of skipped lines.
\<close>

datatype load_log = ParseFailed nat | EntryInvalid nat | Loaded nat nat

text \<open>
  The loop of \<^verbatim>\<open>load_queue\<close>, with \<^verbatim>\<open>items\<close>, \<^verbatim>\<open>lines_processed\<close> and the log.
  Only \<^verbatim>\<open>json.JSONDecodeError\<close> is caught around \<^verbatim>\<open>json.loads\<close>; any other
  exception ends the loop and the call.
\<close>

fun load_lines ::
  "(pytext \<Rightarrow> 'r parsed) \<Rightarrow> ('r \<Rightarrow> bool) \<Rightarrow> (nat \<times> pytext) list
     \<Rightarrow> 'r list \<Rightarrow> nat \<Rightarrow> load_log list \<Rightarrow> py_error + ('r list \<times> nat \<times> load_log list)" where
  "load_lines loads valid [] items lines_processed log = Inr (items, lines_processed, log)"
| "load_lines loads valid ((idx, raw) # rest) items lines_processed log =
     (let line = rstrip_newlines raw in
      if line = [] then load_lines loads valid rest items lines_processed log
      else
        (case loads line of
           ParserRaises e \<Rightarrow> Inl e
         | NotJSON \<Rightarrow>
             load_lines loads valid rest items (lines_processed + 1) (log @ [ParseFailed idx])
         | Parsed entry \<Rightarrow>
             if \<not> valid entry
             then load_lines loads valid rest items (lines_processed + 1)
                    (log @ [EntryInvalid idx])
             else load_lines loads valid rest (items @ [entry]) (lines_processed + 1) log))"

text \<open>
  \<^verbatim>\<open>load_queue\<close>. Python decodes the file in blocks while the loop runs. For a file
  that is UTF-8 that is the same as decoding it as a whole. For a file that is not, the
  loop first sees the lines that the text layer yields before it reaches the
  undecodable bytes, and then \<^verbatim>\<open>UnicodeDecodeError\<close> is raised, unless the parser
  has raised on one of these lines before. Which lines these are depends on the size of
  the blocks, so they are a parameter, \<open>yielded\<close>; for a file of a single block there
  are none.
\<close>

definition load_queue ::
  "(pytext \<Rightarrow> 'r parsed) \<Rightarrow> ('r \<Rightarrow> bool) \<Rightarrow> (string \<Rightarrow> pytext list) \<Rightarrow> filesystem \<Rightarrow> path
     \<Rightarrow> py_error + ('r list \<times> load_log list)" where
  "load_queue loads valid yielded fs path =
     (case fs path of
        None \<Rightarrow> Inl FileNotFoundError
      | Some content \<Rightarrow>
          (case utf8_decode content of
             None \<Rightarrow>
               (case load_lines loads valid (List.enumerate 1 (yielded content)) [] 0 [] of
                  Inl e \<Rightarrow> Inl e
                | Inr r \<Rightarrow> Inl UnicodeDecodeError)
           | Some decoded \<Rightarrow>
               (case load_lines loads valid (List.enumerate 1 (text_lines decoded)) [] 0 [] of
                  Inl e \<Rightarrow> Inl e
                | Inr (items, lines_processed, log) \<Rightarrow>
                    Inr (items, log @ [Loaded (length items) (lines_processed - length items)]))))"

text \<open>
  What the specification says \<^verbatim>\<open>load\<close> returns: the records of the non-empty lines
  that parse as JSON and pass the schema, in file order; and what it logs: one skip for
  every other non-empty line.
\<close>

definition accepted :: "(pytext \<Rightarrow> 'r parsed) \<Rightarrow> ('r \<Rightarrow> bool) \<Rightarrow> pytext \<Rightarrow> 'r option" where
  "accepted loads valid line =
     (case loads line of Parsed entry \<Rightarrow> if valid entry then Some entry else None | _ \<Rightarrow> None)"

definition nonempty_of :: "(nat \<times> pytext) list \<Rightarrow> (nat \<times> pytext) list" where
  "nonempty_of ls =
     filter (\<lambda>(idx, line). line \<noteq> []) (map (\<lambda>(idx, raw). (idx, rstrip_newlines raw)) ls)"

definition nonempty_lines :: "pytext \<Rightarrow> (nat \<times> pytext) list" where
  "nonempty_lines decoded = nonempty_of (List.enumerate 1 (text_lines decoded))"

definition load_spec :: "(pytext \<Rightarrow> 'r parsed) \<Rightarrow> ('r \<Rightarrow> bool) \<Rightarrow> pytext \<Rightarrow> 'r list" where
  "load_spec loads valid decoded =
     List.map_filter (\<lambda>(idx, line). accepted loads valid line) (nonempty_lines decoded)"

definition skip_event ::
  "(pytext \<Rightarrow> 'r parsed) \<Rightarrow> ('r \<Rightarrow> bool) \<Rightarrow> nat \<times> pytext \<Rightarrow> load_log option" where
  "skip_event loads valid =
     (\<lambda>(idx, line). case loads line of
          Parsed entry \<Rightarrow> if valid entry then None else Some (EntryInvalid idx)
        | _ \<Rightarrow> Some (ParseFailed idx))"

definition skipped_spec ::
  "(pytext \<Rightarrow> 'r parsed) \<Rightarrow> ('r \<Rightarrow> bool) \<Rightarrow> pytext \<Rightarrow> load_log list" where
  "skipped_spec loads valid decoded =
     List.map_filter (skip_event loads valid) (nonempty_lines decoded)"

text \<open>The parser raises something that \<^verbatim>\<open>load_queue\<close> does not catch on some line.\<close>

definition parser_raises :: "(pytext \<Rightarrow> 'r parsed) \<Rightarrow> pytext \<Rightarrow> bool" where
  "parser_raises loads decoded =
     list_ex (\<lambda>(idx, line). case loads line of ParserRaises e \<Rightarrow> True | _ \<Rightarrow> False)
       (nonempty_lines decoded)"

text \<open>
  What can go wrong in \<^verbatim>\<open>save_queue_atomic\<close>, chosen by the environment: creating the
  temporary file, writing the line of the task at a given index, \<^verbatim>\<open>flush\<close>,
  \<^verbatim>\<open>os.fsync\<close>, the \<^verbatim>\<open>close\<close> of the \<^verbatim>\<open>finally\<close> block, \<^verbatim>\<open>os.remove\<close> of the
  temporary file, and \<^verbatim>\<open>os.replace\<close>.
\<close>

record save_faults =
  create_fails :: bool
  write_fails_at :: "nat option"
  flush_fails :: bool
  fsync_fails :: bool
  close_fails :: bool
  remove_fails :: bool
  replace_fails :: bool

definition no_faults :: save_faults where
  "no_faults = \<lparr>create_fails = False, write_fails_at = None, flush_fails = False,
     fsync_fails = False, close_fails = False, remove_fails = False, replace_fails = False\<rparr>"

text \<open>
  The writing loop: the bytes written so far, and the exception that stopped the loop,
  if any: the one \<^verbatim>\<open>json.dumps\<close> raises on the task, \<^verbatim>\<open>UnicodeEncodeError\<close> when the
  line cannot be encoded, or the failing write. The line end is written as the byte
  \<open>0x0A\<close>, as on POSIX (where the line separator of the platform is \<^verbatim>\<open>\r\n\<close>, the
  file holds that instead, and \<open>text_lines\<close> reads both alike).
\<close>

fun write_items ::
  "('r \<Rightarrow> py_error + pytext) \<Rightarrow> nat option \<Rightarrow> nat \<Rightarrow> 'r list \<Rightarrow> string
     \<Rightarrow> py_error option \<times> string" where
  "write_items dumps fault i [] written = (None, written)"
| "write_items dumps fault i (task # rest) written =
     (case dumps task of
        Inl e \<Rightarrow> (Some e, written)
      | Inr s \<Rightarrow>
          (case utf8_encode (s @ [10]) of
             None \<Rightarrow> (Some UnicodeEncodeError, written)
           | Some b \<Rightarrow>
               if fault = Some i then (Some OSError, written)
               else write_items dumps fault (Suc i) rest (written @ b)))"

text \<open>The text that \<open>dumps\<close> gives for a task that it can serialise.\<close>

definition dumped :: "('r \<Rightarrow> py_error + pytext) \<Rightarrow> 'r \<Rightarrow> pytext" where
  "dumped dumps task = (case dumps task of Inr s \<Rightarrow> s | Inl e \<Rightarrow> [])"

text \<open>
  The two clean-up handlers: \<^verbatim>\<open>os.remove\<close> of the temporary file inside
  \<^verbatim>\<open>try ... except Exception: pass\<close>.
\<close>

definition remove_temp :: "save_faults \<Rightarrow> path \<Rightarrow> filesystem \<Rightarrow> filesystem" where
  "remove_temp faults tmp fs = (if remove_fails faults then fs else fs(tmp := None))"

text \<open>
  \<^verbatim>\<open>save_queue_atomic\<close>: \<open>tmp\<close> is the name that \<^verbatim>\<open>NamedTemporaryFile\<close> picks. The
  result is the exception that reaches the caller (\<open>None\<close> for a normal return) and
  the file system after the call. The \<^verbatim>\<open>close\<close> of the \<^verbatim>\<open>finally\<close> block stands
  outside both handlers: when it fails after a successful write, nothing removes the
  temporary file.
\<close>

definition save_queue_atomic ::
  "('r \<Rightarrow> py_error + pytext) \<Rightarrow> save_faults \<Rightarrow> path \<Rightarrow> filesystem \<Rightarrow> path \<Rightarrow> 'r list
     \<Rightarrow> py_error option \<times> filesystem" where
  "save_queue_atomic dumps faults tmp fs path items =
     (if create_fails faults then (Some OSError, fs)
      else
        (case write_items dumps (write_fails_at faults) 0 items [] of
           (Some e, written) \<Rightarrow> (Some e, remove_temp faults tmp (fs(tmp \<mapsto> written)))
         | (None, content) \<Rightarrow>
             if flush_fails faults \<or> fsync_fails faults
               then (Some OSError, remove_temp faults tmp (fs(tmp \<mapsto> content)))
             else if close_fails faults then (Some OSError, fs(tmp \<mapsto> content))
             else if replace_fails faults
               then (Some OSError, remove_temp faults tmp (fs(tmp \<mapsto> content)))
             else (None, (fs(tmp := None))(path \<mapsto> content))))"

section \<open>Block validation (block\_reader.py: validate\_block, read\_block)\<close>

text \<open>
  A byte string is a list of \<open>char\<close>, one per byte. The libraries and the block schema
  are the fields of \<open>block_lib\<close>: \<open>schema_ok\<close> says whether \<^verbatim>\<open>jsonschema.validate\<close>
  accepts the block; \<open>encode enc text\<close> is \<^verbatim>\<open>text.encode(enc, errors="strict")\<close>, the
  bytes or the failure of the codec; \<open>encode_replace\<close> is
  \<^verbatim>\<open>text.encode("utf-8", errors="replace")\<close>; \<open>sha256_hex\<close> is the hexadecimal SHA-256
  digest.

  What \<^verbatim>\<open>text.encode\<close> raises: \<^verbatim>\<open>LookupError\<close> for an unknown encoding or one that is
  not a text encoding, \<^verbatim>\<open>UnicodeEncodeError\<close> for a character that the encoding lacks,
  \<^verbatim>\<open>ValueError\<close> for a NUL character in the name of the encoding, and
  \<^verbatim>\<open>UnicodeError\<close> from codecs such as \<^verbatim>\<open>idna\<close> and \<^verbatim>\<open>undefined\<close>.
\<close>

type_synonym bytes = "char list"

datatype codec_failure = NoSuchCodec | CannotEncode | BadCodecName | CodecFailed

definition codec_exception :: "codec_failure \<Rightarrow> py_error" where
  "codec_exception f =
     (case f of
        NoSuchCodec \<Rightarrow> LookupError
      | CannotEncode \<Rightarrow> UnicodeEncodeError
      | BadCodecName \<Rightarrow> ValueError
      | CodecFailed \<Rightarrow> UnicodeError)"

record block_lib =
  schema_ok :: "pydict \<Rightarrow> bool"
  encode :: "string \<Rightarrow> string \<Rightarrow> codec_failure + bytes"
  encode_replace :: "string \<Rightarrow> bytes"
  sha256_hex :: "bytes \<Rightarrow> string"

text \<open>
  What a validation that returns has logged: the rules it flagged (each a
  \<^verbatim>\<open>logger.warning\<close>) and the note on a status \<^verbatim>\<open>damaged\<close> or \<^verbatim>\<open>binary\<close>.
\<close>

datatype warning = Flagged rule | StatusNote string

definition sum_bind :: "'e + 'a \<Rightarrow> ('a \<Rightarrow> 'e + 'b) \<Rightarrow> 'e + 'b" where
  "sum_bind r f = (case r of Inl e \<Rightarrow> Inl e | Inr v \<Rightarrow> f v)"

text \<open>
  The pattern of every integrity check: when the condition holds, strict mode raises
  \<^verbatim>\<open>BlockValidationError\<close> and soft mode logs a warning and goes on.
\<close>

definition flag :: "bool \<Rightarrow> rule \<Rightarrow> bool \<Rightarrow> warning list \<Rightarrow> py_error + warning list" where
  "flag strict r cond ws =
     (if cond then (if strict then Inl (BlockValidationError r) else Inr (ws @ [Flagged r]))
      else Inr ws)"

text \<open>\<^verbatim>\<open>len(text)\<close>: defined on strings, lists and dictionaries.\<close>

definition py_len :: "json \<Rightarrow> py_error + nat" where
  "py_len v =
     (case v of
        JStr s \<Rightarrow> Inr (length s)
      | JList l \<Rightarrow> Inr (length l)
      | JDict d \<Rightarrow> Inr (length d)
      | _ \<Rightarrow> Inl TypeError)"

text \<open>
  The encoding step. Only a string has the method \<^verbatim>\<open>encode\<close>, and the name of the
  encoding must be a string. The handler names \<^verbatim>\<open>LookupError\<close> and
  \<^verbatim>\<open>UnicodeEncodeError\<close>: such a failure is fatal in strict mode and falls back to
  UTF-8 with replacement in soft mode; any other exception of the codec leaves
  \<^verbatim>\<open>validate_block\<close> in either mode.
\<close>

definition encode_text ::
  "block_lib \<Rightarrow> bool \<Rightarrow> json \<Rightarrow> json \<Rightarrow> warning list \<Rightarrow> py_error + (bytes \<times> warning list)" where
  "encode_text lib strict text encoding ws =
     (case text of
        JStr s \<Rightarrow>
          (case encoding of
             JStr enc \<Rightarrow>
               (case encode lib enc s of
                  Inr b \<Rightarrow> Inr (b, ws)
                | Inl f \<Rightarrow>
                    if f = NoSuchCodec \<or> f = CannotEncode then
                      (if strict then Inl (BlockValidationError Encoding)
                       else Inr (encode_replace lib s, ws @ [Flagged Encoding]))
                    else Inl (codec_exception f))
           | _ \<Rightarrow> Inl TypeError)
      | _ \<Rightarrow> Inl AttributeError)"

text \<open>A JSON value used as an integer: integers and Booleans (\<^verbatim>\<open>bool\<close> is an \<^verbatim>\<open>int\<close>).\<close>

definition as_int :: "json \<Rightarrow> int option" where
  "as_int v = (case v of JInt n \<Rightarrow> Some n | JBool b \<Rightarrow> Some (if b then 1 else 0) | _ \<Rightarrow> None)"

text \<open>
  \<^verbatim>\<open>size_diff > recorded_size * 0.08\<close>, with \<open>0.08\<close> taken as the fraction \<open>2/25\<close>. The
  source computes the product in double precision; for sizes below \<open>2^51\<close> the rounded
  product lies on the same side of every integer as the exact one. The product is
  computed before the test for zero, and it raises \<^verbatim>\<open>OverflowError\<close> when the integer
  is too large to convert to a double: from \<open>2^1024 - 2^970\<close> on, which rounds to
  \<open>2^1024\<close>.
\<close>

definition float_overflow :: "int \<Rightarrow> bool" where
  "float_overflow n = (2 ^ 1024 - 2 ^ 970 \<le> abs n)"

definition exceeds_tolerance :: "int \<Rightarrow> int \<Rightarrow> bool" where
  "exceeds_tolerance size_diff recorded_size = (25 * size_diff > 2 * recorded_size)"

definition size_check :: "bool \<Rightarrow> int \<Rightarrow> json \<Rightarrow> warning list \<Rightarrow> py_error + warning list" where
  "size_check strict computed_size recorded_size ws =
     (case as_int recorded_size of
        None \<Rightarrow> Inl TypeError
      | Some recorded \<Rightarrow>
          (let size_diff = abs (computed_size - recorded) in
           if float_overflow recorded then Inl OverflowError
           else
             (let significant_mismatch =
                    (if recorded = 0 then computed_size \<noteq> 0
                     else exceeds_tolerance size_diff recorded)
              in flag strict SizeTolerance significant_mismatch ws)))"

definition sequence_check :: "bool \<Rightarrow> json \<Rightarrow> json \<Rightarrow> warning list \<Rightarrow> py_error + warning list" where
  "sequence_check strict seq total_seqs ws =
     (case (as_int seq, as_int total_seqs) of
        (Some s, Some t) \<Rightarrow> flag strict SequenceRange (\<not> (1 \<le> s \<and> s \<le> t)) ws
      | _ \<Rightarrow> Inr ws)"

text \<open>
  \<^verbatim>\<open>status in {"damaged", "binary"}\<close>: membership in a set hashes the status, which
  raises \<^verbatim>\<open>TypeError\<close> for a list or a dictionary.
\<close>

definition status_note :: "json \<Rightarrow> warning list \<Rightarrow> py_error + warning list" where
  "status_note status ws =
     (case status of
        JList l \<Rightarrow> Inl TypeError
      | JDict d \<Rightarrow> Inl TypeError
      | JStr s \<Rightarrow> if s = ''damaged'' \<or> s = ''binary'' then Inr (ws @ [StatusNote s]) else Inr ws
      | _ \<Rightarrow> Inr ws)"

definition validate_block :: "block_lib \<Rightarrow> pydict \<Rightarrow> bool \<Rightarrow> py_error + warning list" where
  "validate_block lib obj strict =
     (if \<not> schema_ok lib obj then Inl ValidationError
      else
        (let text = dict_get_default obj ''text'' (JStr []);
             encoding = dict_get_default obj ''encoding'' (JStr ''utf-8'');
             recorded_size = dict_get_default obj ''size_bytes'' (JInt 0);
             recorded_hash = dict_get_default obj ''hash_sha256'' (JStr []);
             seq = dict_get obj ''seq'';
             total_seqs = dict_get obj ''total_seqs''
         in
         sum_bind (py_len text) (\<lambda>text_length.
         sum_bind (flag strict TextLength (text_length > 20000) []) (\<lambda>ws1.
         sum_bind (encode_text lib strict text encoding ws1) (\<lambda>(encoded_bytes, ws2).
         sum_bind (flag strict SizeBound (int (length encoded_bytes) > 1048576) ws2) (\<lambda>ws3.
         sum_bind (size_check strict (int (length encoded_bytes)) recorded_size ws3) (\<lambda>ws4.
         sum_bind (flag strict HashMismatch
                     (JStr (sha256_hex lib encoded_bytes) \<noteq> recorded_hash) ws4) (\<lambda>ws5.
         sum_bind (sequence_check strict seq total_seqs ws5) (\<lambda>ws6.
         status_note (dict_get obj ''status'') ws6)))))))))"

text \<open>
  \<^verbatim>\<open>read_block\<close>: \<open>loads\<close> is \<^verbatim>\<open>json.load\<close> on the file, opened as UTF-8: the
  value, or the exception raised (\<^verbatim>\<open>JSONDecodeError\<close>, \<^verbatim>\<open>UnicodeDecodeError\<close> for bytes
  that are not UTF-8, \<^verbatim>\<open>ValueError\<close> or \<^verbatim>\<open>RecursionError\<close> from the parser). The result
  is the block together with what the validation logged.
\<close>

definition read_block ::
  "block_lib \<Rightarrow> (string \<Rightarrow> py_error + json) \<Rightarrow> filesystem \<Rightarrow> path
     \<Rightarrow> py_error + (pydict \<times> warning list)" where
  "read_block lib loads fs path =
     (case fs path of
        None \<Rightarrow> Inl FileNotFoundError
      | Some content \<Rightarrow>
          (case loads content of
             Inl e \<Rightarrow> Inl e
           | Inr data_value \<Rightarrow>
               (case data_value of
                  JDict d \<Rightarrow>
                    (let status = dict_get d ''status'';
                         strict = (if status = JStr ''ok'' then True else False)
                     in case validate_block lib d strict of
                          Inl e \<Rightarrow> Inl e
                        | Inr ws \<Rightarrow> Inr (d, ws))
                | _ \<Rightarrow> Inl JSONDecodeError)))"

section \<open>Result and error files (result\_writer.py: write\_result; error\_writer.py: write\_error)\<close>

text \<open>
  The three schemas and the JSON serialiser are the fields of \<open>writer_lib\<close>:
  \<open>payload_ok\<close>, \<open>result_ok\<close> and \<open>error_ok\<close> say whether
  \<^verbatim>\<open>jsonschema.validate\<close> accepts the analysis payload, the result wrapper and the
  error object; \<open>report_dumps\<close> is what \<^verbatim>\<open>json.dump(_, f, ensure_ascii=False)\<close>
  writes to the file, opened as UTF-8, or the exception it raises: \<^verbatim>\<open>TypeError\<close> or
  \<^verbatim>\<open>ValueError\<close> for a value that cannot be serialised, \<^verbatim>\<open>UnicodeEncodeError\<close> for a
  string with a lone surrogate.

  What can go wrong while writing, chosen by the environment: opening the file, the
  writing itself (with the text that reached the file before the failure), and the
  \<^verbatim>\<open>unlink\<close> of the clean-up in \<^verbatim>\<open>write_result\<close>.
\<close>

record writer_lib =
  payload_ok :: "json \<Rightarrow> bool"
  result_ok :: "json \<Rightarrow> bool"
  error_ok :: "json \<Rightarrow> bool"
  report_dumps :: "json \<Rightarrow> py_error + string"

record write_faults =
  open_fails :: bool
  dump_fails :: bool
  partial_text :: string
  unlink_fails :: bool

definition no_write_faults :: write_faults where
  "no_write_faults =
     \<lparr>open_fails = False, dump_fails = False, partial_text = [], unlink_fails = False\<rparr>"

text \<open>
  A path of \<^verbatim>\<open>pathlib\<close> is modelled by its text, \<^verbatim>\<open>a / b\<close> by joining with a slash:
  this is the text of the path when the directory is written without a trailing slash
  and without \<^verbatim>\<open>.\<close> components and the name holds no slash (\<^verbatim>\<open>pathlib\<close> brings
  other paths to that form first). Directories are not part of the file system, so
  \<^verbatim>\<open>mkdir\<close> changes nothing.
\<close>

definition join_path :: "path \<Rightarrow> string \<Rightarrow> path" where
  "join_path dir name = dir @ ''/'' @ name"

definition result_file :: "path \<Rightarrow> string \<Rightarrow> path" where
  "result_file base_dir block_id =
     join_path (join_path (join_path base_dir ''Archive'') ''AnalysisResults'') (block_id @ ''.json'')"

definition errors_dir :: "path \<Rightarrow> path" where
  "errors_dir base_dir = join_path (join_path base_dir ''Archive'') ''AnalysisErrors''"

text \<open>\<^verbatim>\<open>s.replace(c, "")\<close> for a single character \<open>c\<close>.\<close>

definition remove_char :: "char \<Rightarrow> string \<Rightarrow> string" where
  "remove_char c s = filter (\<lambda>x. x \<noteq> c) s"

definition error_file :: "path \<Rightarrow> string \<Rightarrow> path" where
  "error_file base_dir block_id = join_path (errors_dir base_dir) (block_id @ ''.json'')"

text \<open>The time stamp with \<^verbatim>\<open>-\<close> and \<^verbatim>\<open>:\<close> removed, and the file named after it.\<close>

definition suffix_ts :: "string \<Rightarrow> string" where
  "suffix_ts timestamp_iso = remove_char (CHR '':'') (remove_char (CHR ''-'') timestamp_iso)"

definition suffixed_error_file :: "path \<Rightarrow> string \<Rightarrow> string \<Rightarrow> path" where
  "suffixed_error_file base_dir block_id timestamp_iso =
     join_path (errors_dir base_dir) (block_id @ ''__'' @ suffix_ts timestamp_iso @ ''.json'')"

text \<open>The wrapper that \<^verbatim>\<open>write_result\<close> builds around the analysis payload.\<close>

definition result_object :: "string \<Rightarrow> string \<Rightarrow> string \<Rightarrow> string \<Rightarrow> json \<Rightarrow> json" where
  "result_object block_id model completed_at_iso analysis_version analysis_obj =
     JDict
       [(''block_id'', JStr block_id), (''model'', JStr model),
        (''completed_at'', JStr completed_at_iso),
        (''analysis_version'', JStr analysis_version), (''analysis'', analysis_obj)]"

text \<open>
  \<^verbatim>\<open>write_result\<close>: the result is the path returned or the exception raised, and the
  file system after the call.
\<close>

definition write_result ::
  "writer_lib \<Rightarrow> write_faults \<Rightarrow> filesystem \<Rightarrow> path \<Rightarrow> string \<Rightarrow> string \<Rightarrow> string \<Rightarrow> json \<Rightarrow> string
     \<Rightarrow> (py_error + path) \<times> filesystem" where
  "write_result lib faults fs base_dir block_id model analysis_version analysis_obj completed_at_iso =
     (if \<not> payload_ok lib analysis_obj then (Inl ValidationError, fs)
      else
        (let result =
               result_object block_id model completed_at_iso analysis_version analysis_obj;
             out_path = result_file base_dir block_id
         in
         if \<not> result_ok lib result then (Inl ValidationError, fs)
         else if fs out_path \<noteq> None then (Inr out_path, fs)
         else if open_fails faults then (Inl OSError, fs)
         else
           (case report_dumps lib result of
              Inr s \<Rightarrow>
                if dump_fails faults
                  then (Inl OSError,
                        if unlink_fails faults then fs(out_path \<mapsto> partial_text faults) else fs)
                else (Inr out_path, fs(out_path \<mapsto> s))
            | Inl e \<Rightarrow>
                (Inl e,
                 if unlink_fails faults then fs(out_path \<mapsto> partial_text faults) else fs))))"

text \<open>The error object that \<^verbatim>\<open>write_error\<close> builds from its arguments (\<open>response_text\<close> is optional).\<close>

definition error_object :: "string \<Rightarrow> string \<Rightarrow> string \<Rightarrow> string \<Rightarrow> string option \<Rightarrow> string \<Rightarrow> json" where
  "error_object block_id task_id error_type error_detail response_text timestamp_iso =
     JDict
       [(''block_id'', JStr block_id), (''task_id'', JStr task_id),
        (''error_type'', JStr error_type), (''error_detail'', JStr error_detail),
        (''response_text'', (case response_text of None \<Rightarrow> JNull | Some t \<Rightarrow> JStr t)),
        (''timestamp'', JStr timestamp_iso)]"

text \<open>
  \<^verbatim>\<open>write_error\<close>: the file is opened for writing whatever the path holds, and
  nothing cleans up after a failed write.
\<close>

definition write_error ::
  "writer_lib \<Rightarrow> write_faults \<Rightarrow> filesystem \<Rightarrow> path \<Rightarrow> string \<Rightarrow> string \<Rightarrow> string \<Rightarrow> string
     \<Rightarrow> string option \<Rightarrow> string \<Rightarrow> (py_error + path) \<times> filesystem" where
  "write_error lib faults fs base_dir block_id task_id error_type error_detail response_text
     timestamp_iso =
     (let error_obj =
            error_object block_id task_id error_type error_detail response_text timestamp_iso
      in
      if \<not> error_ok lib error_obj then (Inl ValidationError, fs)
      else
        (let base_file = error_file base_dir block_id;
             out_path =
               (if fs base_file \<noteq> None
                then suffixed_error_file base_dir block_id timestamp_iso
                else base_file)
         in
         if open_fails faults then (Inl OSError, fs)
         else
           (case report_dumps lib error_obj of
              Inr s \<Rightarrow>
                if dump_fails faults then (Inl OSError, fs(out_path \<mapsto> partial_text faults))
                else (Inr out_path, fs(out_path \<mapsto> s))
            | Inl e \<Rightarrow> (Inl e, fs(out_path \<mapsto> partial_text faults)))))"

section \<open>Sample inputs\<close>

text \<open>The task of the specification's third scenario.\<close>

definition sample_task :: pydict where
  "sample_task = [(''id'', JStr ''t1''), (''status'', JStr ''pending''), (''priority'', JInt 5)]"

text \<open>
  Two pending tasks of equal priority; the creation time of the first is an ISO 8601
  time stamp, that of the second is not.
\<close>

definition task_dated :: pydict where
  "task_dated =
     [(''id'', JStr ''a''), (''status'', JStr ''pending''), (''priority'', JInt 1),
      (''created_at'', JStr ''2024-01-01T00:00:00'')]"

definition task_undated :: pydict where
  "task_undated =
     [(''id'', JStr ''b''), (''status'', JStr ''pending''), (''priority'', JInt 1),
      (''created_at'', JStr ''not-a-date'')]"

text \<open>
  A parser that knows the one time stamp of the samples (midnight of 1 January 2024, in
  microseconds since 1970) and rejects everything else, as both library parsers reject
  \<^verbatim>\<open>not-a-date\<close>.
\<close>

definition sample_parser :: "string \<Rightarrow> datetime option" where
  "sample_parser s = (if s = ''2024-01-01T00:00:00'' then Some (Naive 1704067200000000) else None)"

text \<open>
  A queue file of four lines: a valid record, a line that is not JSON, an empty line and
  a second valid record. The sample JSON library knows the two record lines; the sample
  schema accepts every JSON object.
\<close>

definition line_t1 :: string where
  "line_t1 = ''{\"id\": \"t1\", \"status\": \"pending\", \"priority\": 5}''"

definition line_a :: string where
  "line_a = ''{\"id\": \"a\", \"status\": \"pending\", \"priority\": 1, \"created_at\": \"2024-01-01T00:00:00\"}''"

definition sample_dumps :: "json \<Rightarrow> py_error + pytext" where
  "sample_dumps v =
     (if v = JDict sample_task then Inr (cp line_t1)
      else if v = JDict task_dated then Inr (cp line_a)
      else Inl TypeError)"

definition sample_loads :: "pytext \<Rightarrow> json parsed" where
  "sample_loads s =
     (if s = cp line_t1 then Parsed (JDict sample_task)
      else if s = cp line_a then Parsed (JDict task_dated)
      else NotJSON)"

definition is_dict :: "json \<Rightarrow> bool" where
  "is_dict v = (case v of JDict d \<Rightarrow> True | _ \<Rightarrow> False)"

definition sample_content :: string where
  "sample_content =
     line_t1 @ [CHR 0x0A] @ ''{broken'' @ [CHR 0x0A] @ [CHR 0x0A] @ line_a @ [CHR 0x0A]"

definition sample_fs :: filesystem where
  "sample_fs p = (if p = ''queue.jsonl'' then Some sample_content else None)"

text \<open>
  Two queue files that \<^verbatim>\<open>load_queue\<close> cannot read to the end. In the first the
  second line is the single byte \<open>0xFF\<close>, which is not UTF-8. In the second the second
  line is an integer of 5000 digits, for which \<^verbatim>\<open>json.loads\<close> raises \<^verbatim>\<open>ValueError\<close>
  (the limit of integer conversion is 4300 digits), not \<^verbatim>\<open>JSONDecodeError\<close>. The
  sample files are shorter than a block: no line is yielded before undecodable bytes
  are met.
\<close>

definition nothing_yielded :: "string \<Rightarrow> pytext list" where
  "nothing_yielded content = []"

definition undecodable_content :: string where
  "undecodable_content = line_t1 @ [CHR 0x0A, CHR 0xFF, CHR 0x0A]"

definition undecodable_fs :: filesystem where
  "undecodable_fs p = (if p = ''queue.jsonl'' then Some undecodable_content else None)"

definition long_integer :: string where
  "long_integer = replicate 5000 (CHR ''1'')"

definition long_integer_content :: string where
  "long_integer_content = line_t1 @ [CHR 0x0A] @ long_integer @ [CHR 0x0A]"

definition long_integer_fs :: filesystem where
  "long_integer_fs p = (if p = ''queue.jsonl'' then Some long_integer_content else None)"

definition limited_loads :: "pytext \<Rightarrow> json parsed" where
  "limited_loads s = (if s = cp long_integer then ParserRaises ValueError else sample_loads s)"

text \<open>
  The record \<^verbatim>\<open>{"id": i, "status": "pending", "priority": 5}\<close>, given by the code
  points of its id \<open>i\<close>, with the text that \<^verbatim>\<open>json.dumps(_, ensure_ascii=False)\<close>
  gives for it when the id holds no character that JSON escapes. The id of one code
  point \<open>0xD800\<close> is a lone surrogate (the JSON text \<^verbatim>\<open>"\ud800"\<close> loads as that
  string).
\<close>

definition id_record_dumps :: "pytext \<Rightarrow> py_error + pytext" where
  "id_record_dumps i =
     Inr (cp ''{\"id\": \"'' @ i @ cp ''\", \"status\": \"pending\", \"priority\": 5}'')"

text \<open>
  The line of the record whose id is the lone surrogate, the JSON reader that knows this
  line, the schema that accepts every record, and a file system without any file.
\<close>

definition surrogate_line :: pytext where
  "surrogate_line =
     cp ''{\"id\": \"'' @ [0xD800] @ cp ''\", \"status\": \"pending\", \"priority\": 5}''"

definition surrogate_loads :: "pytext \<Rightarrow> pytext parsed" where
  "surrogate_loads s = (if s = surrogate_line then Parsed [0xD800] else NotJSON)"

definition any_record :: "pytext \<Rightarrow> bool" where
  "any_record r = True"

definition no_files :: filesystem where
  "no_files p = None"

text \<open>
  The block of the specification's first scenario (status \<^verbatim>\<open>ok\<close>, text \<^verbatim>\<open>hi\<close>, two
  bytes, the SHA-256 digest of \<^verbatim>\<open>hi\<close>), and the blocks of the second scenario:
  the same with the recorded size 100, once with status \<^verbatim>\<open>damaged\<close> and once with status
  \<^verbatim>\<open>ok\<close>. The sample library encodes UTF-8 text of the ASCII range as itself and
  knows the digest of \<^verbatim>\<open>hi\<close>; the sample schema accepts every block.
\<close>

definition hi_digest :: string where
  "hi_digest = ''8f434346648f6b96df89dda901c5176b10a6d83961dd3c1ac88b59b2dc327aa4''"

definition sample_block :: pydict where
  "sample_block =
     [(''block_id'', JStr ''b1''), (''seq'', JInt 1), (''total_seqs'', JInt 1),
      (''text'', JStr ''hi''), (''encoding'', JStr ''utf-8''), (''size_bytes'', JInt 2),
      (''hash_sha256'', JStr hi_digest), (''status'', JStr ''ok'')]"

definition damaged_block :: pydict where
  "damaged_block =
     [(''block_id'', JStr ''b2''), (''seq'', JInt 1), (''total_seqs'', JInt 1),
      (''text'', JStr ''hi''), (''encoding'', JStr ''utf-8''), (''size_bytes'', JInt 100),
      (''hash_sha256'', JStr hi_digest), (''status'', JStr ''damaged'')]"

definition missized_block :: pydict where
  "missized_block =
     [(''block_id'', JStr ''b3''), (''seq'', JInt 1), (''total_seqs'', JInt 1),
      (''text'', JStr ''hi''), (''encoding'', JStr ''utf-8''), (''size_bytes'', JInt 100),
      (''hash_sha256'', JStr hi_digest), (''status'', JStr ''ok'')]"

definition sample_block_lib :: block_lib where
  "sample_block_lib =
     \<lparr>schema_ok = (\<lambda>obj. True),
      encode = (\<lambda>enc s. if enc = ''utf-8'' then Inr s else Inl NoSuchCodec),
      encode_replace = (\<lambda>s. s),
      sha256_hex = (\<lambda>b. if b = ''hi'' then hi_digest else [])\<rparr>"

text \<open>Three block files, named by their content, and the JSON reader that knows them.\<close>

definition block_loads :: "string \<Rightarrow> py_error + json" where
  "block_loads s =
     (if s = ''block b1'' then Inr (JDict sample_block)
      else if s = ''block b2'' then Inr (JDict damaged_block)
      else if s = ''block b3'' then Inr (JDict missized_block)
      else Inl JSONDecodeError)"

definition block_fs :: filesystem where
  "block_fs p =
     (if p = ''b1.json'' then Some ''block b1''
      else if p = ''b2.json'' then Some ''block b2''
      else if p = ''b3.json'' then Some ''block b3''
      else None)"

text \<open>
  An archive in which block \<^verbatim>\<open>b1\<close> has a result and two error reports already: the
  first one and one written at \<^verbatim>\<open>2024-01-01T00:00:00Z\<close>. The sample serialiser writes
  the detail of an error and a fixed text for a result; the sample schemas accept
  everything.
\<close>

definition sample_writer_lib :: writer_lib where
  "sample_writer_lib =
     \<lparr>payload_ok = (\<lambda>v. True), result_ok = (\<lambda>v. True), error_ok = (\<lambda>v. True),
      report_dumps = (\<lambda>v. case v of JDict d \<Rightarrow>
          (case dict_get d ''error_detail'' of JStr t \<Rightarrow> Inr t | _ \<Rightarrow> Inr ''new result'')
        | _ \<Rightarrow> Inl TypeError)\<rparr>"

text \<open>The same library with a payload schema that accepts JSON objects only.\<close>

definition checking_writer_lib :: writer_lib where
  "checking_writer_lib = sample_writer_lib\<lparr>payload_ok := is_dict\<rparr>"

definition archive_fs :: filesystem where
  "archive_fs p =
     (if p = ''/data/Archive/AnalysisResults/b1.json'' then Some ''first result''
      else if p = ''/data/Archive/AnalysisErrors/b1.json'' then Some ''first failure''
      else if p = ''/data/Archive/AnalysisErrors/b1__20240101T000000Z.json''
        then Some ''second failure''
      else None)"

chapter \<open>Properties\<close>

section \<open>Dictionaries\<close>

lemma dict_get_set: "dict_get (dict_set d k v) k' = (if k' = k then v else dict_get d k')"
  by (simp add: dict_get_def dict_set_def update_conv')

section \<open>Task lifecycle\<close>


lemma find_update_first:
  "List.find P xs = Some x \<Longrightarrow> P (f x) \<Longrightarrow> List.find P (update_first P f xs) = Some (f x)"
  by (induction xs) (auto split: if_splits)

lemma set_update_first_status:
  "List.find P xs = Some x \<Longrightarrow> t \<in> set (update_first P f xs) \<Longrightarrow> t \<in> set xs \<or> t = f x"
  by (induction xs) (auto split: if_splits)

lemma has_id_set_in_progress: "has_id tid (set_in_progress t) = has_id tid t"
  by (simp add: has_id_def set_in_progress_def dict_get_set)

lemma has_id_set_done: "has_id tid (set_done rp ca t) = has_id tid t"
  by (simp add: has_id_def set_done_def dict_get_set)

lemma has_id_set_error: "has_id tid (set_error em ep ca t) = has_id tid t"
  by (simp add: has_id_def set_error_def dict_get_set)

lemma set_done_fields:
  "dict_get (set_done rp ca t) ''status'' = JStr ''done''"
  "dict_get (set_done rp ca t) ''result_path'' = JStr rp"
  "dict_get (set_done rp ca t) ''completed_at'' = JStr ca"
  "dict_get (set_done rp ca t) ''error_path'' = JNull"
  "dict_get (set_done rp ca t) ''error_msg'' = JNull"
  by (simp_all add: set_done_def dict_get_set)

lemma set_error_fields:
  "dict_get (set_error em ep ca t) ''status'' = JStr ''error''"
  "dict_get (set_error em ep ca t) ''error_msg'' = JStr em"
  "dict_get (set_error em ep ca t) ''error_path'' = JStr ep"
  "dict_get (set_error em ep ca t) ''completed_at'' = JStr ca"
  "dict_get (set_error em ep ca t) ''result_path'' = JNull"
  by (simp_all add: set_error_def dict_get_set)

lemma set_in_progress_fields:
  "dict_get (set_in_progress t) ''status'' = JStr ''in_progress''"
  "dict_get (set_in_progress t) ''result_path'' = dict_get t ''result_path''"
  "dict_get (set_in_progress t) ''error_path'' = dict_get t ''error_path''"
  by (simp_all add: set_in_progress_def dict_get_set)

lemma inv_set_done: "task_invariant (set_done rp ca t) \<and> status_declared (set_done rp ca t)"
  by (simp add: task_invariant_def status_declared_def set_done_fields)

lemma inv_set_error: "task_invariant (set_error em ep ca t) \<and> status_declared (set_error em ep ca t)"
  by (simp add: task_invariant_def status_declared_def set_error_fields)

lemma inv_set_in_progress:
  "task_invariant t \<Longrightarrow> dict_get t ''status'' = JStr ''pending'' \<Longrightarrow>
   task_invariant (set_in_progress t) \<and> status_declared (set_in_progress t)"
  by (simp add: task_invariant_def status_declared_def set_in_progress_fields)

lemma find_SomeD: "List.find P xs = Some x \<Longrightarrow> x \<in> set xs \<and> P x"
  by (induction xs) (auto split: if_splits)


text \<open>
  Claim C4. The three transition functions are total, with no error result. A task id
  carried by no task of the list is the not-found path of all three, and the list comes
  back as it was. When a task carries the id, the first such task decides the path from
  its current status alone, whatever value that status has: no change, rejection or
  mutation. On every path but the mutation the list is returned unchanged.
\<close>

theorem lifecycle_total:
  "((\<forall>t\<in>set items. \<not> has_id tid t) \<longrightarrow>
      mark_in_progress items tid = (items, NotFound) \<and>
      mark_done items tid rp ca = (items, NotFound) \<and>
      mark_error items tid em ep ca = (items, NotFound)) \<and>
   (\<forall>task. List.find (has_id tid) items = Some task \<longrightarrow>
      snd (mark_in_progress items tid) =
        (if dict_get task ''status'' = JStr ''in_progress'' then NoChange
         else if dict_get task ''status'' = JStr ''done'' \<or> dict_get task ''status'' = JStr ''error''
           then Rejected else Marked) \<and>
      snd (mark_done items tid rp ca) =
        (if dict_get task ''status'' = JStr ''done'' then NoChange
         else if dict_get task ''status'' = JStr ''error'' then Rejected else Marked) \<and>
      snd (mark_error items tid em ep ca) =
        (if dict_get task ''status'' = JStr ''error'' then NoChange
         else if dict_get task ''status'' = JStr ''done'' then Rejected else Marked)) \<and>
   (snd (mark_in_progress items tid) \<noteq> Marked \<longrightarrow> fst (mark_in_progress items tid) = items) \<and>
   (snd (mark_done items tid rp ca) \<noteq> Marked \<longrightarrow> fst (mark_done items tid rp ca) = items) \<and>
   (snd (mark_error items tid em ep ca) \<noteq> Marked \<longrightarrow> fst (mark_error items tid em ep ca) = items)"
proof -
  have absent: "List.find (has_id tid) items = None" if "\<forall>t\<in>set items. \<not> has_id tid t"
    using that by (simp add: find_None_iff)
  have a: "(\<forall>t\<in>set items. \<not> has_id tid t) \<longrightarrow>
      mark_in_progress items tid = (items, NotFound) \<and>
      mark_done items tid rp ca = (items, NotFound) \<and>
      mark_error items tid em ep ca = (items, NotFound)"
    using absent by (simp add: mark_in_progress_def mark_done_def mark_error_def)
  have b: "\<forall>task. List.find (has_id tid) items = Some task \<longrightarrow>
      snd (mark_in_progress items tid) =
        (if dict_get task ''status'' = JStr ''in_progress'' then NoChange
         else if dict_get task ''status'' = JStr ''done'' \<or> dict_get task ''status'' = JStr ''error''
           then Rejected else Marked) \<and>
      snd (mark_done items tid rp ca) =
        (if dict_get task ''status'' = JStr ''done'' then NoChange
         else if dict_get task ''status'' = JStr ''error'' then Rejected else Marked) \<and>
      snd (mark_error items tid em ep ca) =
        (if dict_get task ''status'' = JStr ''error'' then NoChange
         else if dict_get task ''status'' = JStr ''done'' then Rejected else Marked)"
    by (simp add: mark_in_progress_def mark_done_def mark_error_def Let_def)
  have c1: "snd (mark_in_progress items tid) \<noteq> Marked \<longrightarrow> fst (mark_in_progress items tid) = items"
    by (simp add: mark_in_progress_def Let_def split: option.splits)
  have c2: "snd (mark_done items tid rp ca) \<noteq> Marked \<longrightarrow> fst (mark_done items tid rp ca) = items"
    by (simp add: mark_done_def Let_def split: option.splits)
  have c3: "snd (mark_error items tid em ep ca) \<noteq> Marked \<longrightarrow> fst (mark_error items tid em ep ca) = items"
    by (simp add: mark_error_def Let_def split: option.splits)
  from a b c1 c2 c3 show ?thesis by blast
qed

text \<open>
  Claim C5. If every task of the list satisfies the record invariant (and has one of the
  four declared statuses), then so does every task of the list after
  \<^verbatim>\<open>mark_in_progress\<close>, \<^verbatim>\<open>mark_done\<close> or \<^verbatim>\<open>mark_error\<close>. Moreover, when
  the first task carrying the id is neither \<^verbatim>\<open>done\<close> nor \<^verbatim>\<open>error\<close>, the task
  found under the id after \<^verbatim>\<open>mark_done\<close> has status \<^verbatim>\<open>done\<close>, the given
  \<^verbatim>\<open>result_path\<close> and \<^verbatim>\<open>completed_at\<close>, and null \<^verbatim>\<open>error_path\<close> and
  \<^verbatim>\<open>error_msg\<close>; and the task found after \<^verbatim>\<open>mark_error\<close> has status
  \<^verbatim>\<open>error\<close>, the given \<^verbatim>\<open>error_path\<close>, \<^verbatim>\<open>error_msg\<close> and
  \<^verbatim>\<open>completed_at\<close>, and a null \<^verbatim>\<open>result_path\<close>.
\<close>

theorem lifecycle_preserves_invariant:
  assumes inv: "\<forall>t\<in>set items. task_invariant t \<and> status_declared t"
  shows "(\<forall>t\<in>set (fst (mark_in_progress items tid)). task_invariant t \<and> status_declared t) \<and>
         (\<forall>t\<in>set (fst (mark_done items tid rp ca)). task_invariant t \<and> status_declared t) \<and>
         (\<forall>t\<in>set (fst (mark_error items tid em ep ca)). task_invariant t \<and> status_declared t) \<and>
         (\<forall>task. List.find (has_id tid) items = Some task \<and>
                 dict_get task ''status'' \<noteq> JStr ''done'' \<and>
                 dict_get task ''status'' \<noteq> JStr ''error'' \<longrightarrow>
            (\<exists>task'. List.find (has_id tid) (fst (mark_done items tid rp ca)) = Some task' \<and>
               dict_get task' ''status'' = JStr ''done'' \<and>
               dict_get task' ''result_path'' = JStr rp \<and>
               dict_get task' ''completed_at'' = JStr ca \<and>
               dict_get task' ''error_path'' = JNull \<and> dict_get task' ''error_msg'' = JNull) \<and>
            (\<exists>task'. List.find (has_id tid) (fst (mark_error items tid em ep ca)) = Some task' \<and>
               dict_get task' ''status'' = JStr ''error'' \<and>
               dict_get task' ''error_path'' = JStr ep \<and> dict_get task' ''error_msg'' = JStr em \<and>
               dict_get task' ''completed_at'' = JStr ca \<and>
               dict_get task' ''result_path'' = JNull))"
proof -
  have p1: "\<forall>t\<in>set (fst (mark_in_progress items tid)). task_invariant t \<and> status_declared t"
  proof (cases "List.find (has_id tid) items")
    case None
    then show ?thesis using inv by (simp add: mark_in_progress_def)
  next
    case (Some task)
    then have mem: "task \<in> set items" by (simp add: find_SomeD)
    show ?thesis
    proof (cases "dict_get task ''status'' = JStr ''pending''")
      case True
      have good: "task_invariant (set_in_progress task) \<and> status_declared (set_in_progress task)"
        using inv mem True by (simp add: inv_set_in_progress)
      have "fst (mark_in_progress items tid) = update_first (has_id tid) set_in_progress items"
        using Some True by (simp add: mark_in_progress_def)
      then show ?thesis
        using set_update_first_status [OF Some] inv good by metis
    next
      case False
      then have "dict_get task ''status'' = JStr ''in_progress'' \<or>
                 dict_get task ''status'' = JStr ''done'' \<or> dict_get task ''status'' = JStr ''error''"
        using inv mem by (auto simp: status_declared_def)
      then have "fst (mark_in_progress items tid) = items"
        using Some by (auto simp: mark_in_progress_def)
      then show ?thesis using inv by simp
    qed
  qed
  have p2: "\<forall>t\<in>set (fst (mark_done items tid rp ca)). task_invariant t \<and> status_declared t"
  proof (cases "snd (mark_done items tid rp ca) = Marked")
    case False
    then have "fst (mark_done items tid rp ca) = items"
      by (simp add: mark_done_def Let_def split: option.splits if_splits)
    then show ?thesis using inv by simp
  next
    case True
    then obtain task where f: "List.find (has_id tid) items = Some task"
      by (cases "List.find (has_id tid) items") (simp_all add: mark_done_def)
    have "fst (mark_done items tid rp ca) = update_first (has_id tid) (set_done rp ca) items"
      using f True by (simp add: mark_done_def Let_def split: if_splits)
    then show ?thesis
      using set_update_first_status [OF f] inv inv_set_done by metis
  qed
  have p3: "\<forall>t\<in>set (fst (mark_error items tid em ep ca)). task_invariant t \<and> status_declared t"
  proof (cases "snd (mark_error items tid em ep ca) = Marked")
    case False
    then have "fst (mark_error items tid em ep ca) = items"
      by (simp add: mark_error_def Let_def split: option.splits if_splits)
    then show ?thesis using inv by simp
  next
    case True
    then obtain task where f: "List.find (has_id tid) items = Some task"
      by (cases "List.find (has_id tid) items") (simp_all add: mark_error_def)
    have "fst (mark_error items tid em ep ca) = update_first (has_id tid) (set_error em ep ca) items"
      using f True by (simp add: mark_error_def Let_def split: if_splits)
    then show ?thesis
      using set_update_first_status [OF f] inv inv_set_error by metis
  qed
  have p4: "\<exists>task'. List.find (has_id tid) (fst (mark_done items tid rp ca)) = Some task' \<and>
               dict_get task' ''status'' = JStr ''done'' \<and>
               dict_get task' ''result_path'' = JStr rp \<and>
               dict_get task' ''completed_at'' = JStr ca \<and>
               dict_get task' ''error_path'' = JNull \<and> dict_get task' ''error_msg'' = JNull"
    if f: "List.find (has_id tid) items = Some task"
      and nd: "dict_get task ''status'' \<noteq> JStr ''done''"
      and ne: "dict_get task ''status'' \<noteq> JStr ''error''"
    for task
  proof -
    have e: "fst (mark_done items tid rp ca) = update_first (has_id tid) (set_done rp ca) items"
      using f nd ne by (simp add: mark_done_def)
    have "has_id tid (set_done rp ca task)"
      using find_SomeD [OF f] by (simp add: has_id_set_done)
    then have "List.find (has_id tid) (fst (mark_done items tid rp ca)) = Some (set_done rp ca task)"
      using e f by (simp add: find_update_first)
    then show ?thesis by (simp add: set_done_fields)
  qed
  have p5: "\<exists>task'. List.find (has_id tid) (fst (mark_error items tid em ep ca)) = Some task' \<and>
               dict_get task' ''status'' = JStr ''error'' \<and>
               dict_get task' ''error_path'' = JStr ep \<and> dict_get task' ''error_msg'' = JStr em \<and>
               dict_get task' ''completed_at'' = JStr ca \<and>
               dict_get task' ''result_path'' = JNull"
    if f: "List.find (has_id tid) items = Some task"
      and nd: "dict_get task ''status'' \<noteq> JStr ''done''"
      and ne: "dict_get task ''status'' \<noteq> JStr ''error''"
    for task
  proof -
    have e: "fst (mark_error items tid em ep ca) = update_first (has_id tid) (set_error em ep ca) items"
      using f nd ne by (simp add: mark_error_def)
    have "has_id tid (set_error em ep ca task)"
      using find_SomeD [OF f] by (simp add: has_id_set_error)
    then have "List.find (has_id tid) (fst (mark_error items tid em ep ca)) = Some (set_error em ep ca task)"
      using e f by (simp add: find_update_first)
    then show ?thesis by (simp add: set_error_fields)
  qed
  from p1 p2 p3 p4 p5 show ?thesis by blast
qed

text \<open>
  Claim C10. When the first task carrying the id is \<^verbatim>\<open>pending\<close>, \<^verbatim>\<open>mark_done\<close>
  takes the mutation path and leaves that task with status \<^verbatim>\<open>done\<close>, and
  \<^verbatim>\<open>mark_error\<close> takes the mutation path and leaves it with status \<^verbatim>\<open>error\<close>:
  no passage through \<^verbatim>\<open>in_progress\<close> is asked for.
\<close>

theorem pending_to_terminal:
  assumes f: "List.find (has_id tid) items = Some task"
      and p: "dict_get task ''status'' = JStr ''pending''"
  shows "snd (mark_done items tid rp ca) = Marked \<and>
         (\<exists>task'. List.find (has_id tid) (fst (mark_done items tid rp ca)) = Some task' \<and>
            dict_get task' ''status'' = JStr ''done'') \<and>
         snd (mark_error items tid em ep ca) = Marked \<and>
         (\<exists>task'. List.find (has_id tid) (fst (mark_error items tid em ep ca)) = Some task' \<and>
            dict_get task' ''status'' = JStr ''error'')"
proof -
  have d: "mark_done items tid rp ca = (update_first (has_id tid) (set_done rp ca) items, Marked)"
    using f p by (simp add: mark_done_def)
  have e: "mark_error items tid em ep ca =
           (update_first (has_id tid) (set_error em ep ca) items, Marked)"
    using f p by (simp add: mark_error_def)
  have hd: "has_id tid (set_done rp ca task)"
    using find_SomeD [OF f] by (simp add: has_id_set_done)
  have he: "has_id tid (set_error em ep ca task)"
    using find_SomeD [OF f] by (simp add: has_id_set_error)
  have fd: "List.find (has_id tid) (fst (mark_done items tid rp ca)) = Some (set_done rp ca task)"
    using d f hd by (simp add: find_update_first)
  have fe: "List.find (has_id tid) (fst (mark_error items tid em ep ca)) =
            Some (set_error em ep ca task)"
    using e f he by (simp add: find_update_first)
  show ?thesis using d e fd fe by (simp add: set_done_fields set_error_fields)
qed


text \<open>
  The third scenario of the specification: an unknown id is not found, the pending task
  \<open>t1\<close> is started, and starting it again changes nothing.
\<close>

theorem lifecycle_total_witness:
  "List.find (has_id ''t9'') [sample_task] = None \<and>
   mark_in_progress [sample_task] ''t9'' = ([sample_task], NotFound) \<and>
   mark_done [sample_task] ''t9'' ''r.json'' ''2024-01-01T00:00:00Z'' = ([sample_task], NotFound) \<and>
   mark_error [sample_task] ''t9'' ''boom'' ''e.json'' ''2024-01-01T00:00:00Z'' = ([sample_task], NotFound) \<and>
   List.find (has_id ''t1'') [sample_task] = Some sample_task \<and>
   snd (mark_in_progress [sample_task] ''t1'') = Marked \<and>
   snd (mark_in_progress (fst (mark_in_progress [sample_task] ''t1'')) ''t1'') = NoChange \<and>
   fst (mark_in_progress (fst (mark_in_progress [sample_task] ''t1'')) ''t1'') =
     fst (mark_in_progress [sample_task] ''t1'')"
proof -
  have absent: "\<forall>t\<in>set [sample_task]. \<not> has_id ''t9'' t"
    by (simp add: sample_task_def has_id_def dict_get_def)
  have found: "List.find (has_id ''t1'') [sample_task] = Some sample_task"
    by (simp add: sample_task_def has_id_def dict_get_def)
  have st: "dict_get sample_task ''status'' = JStr ''pending''"
    by (simp add: sample_task_def dict_get_def)
  note t9 = lifecycle_total [of "[sample_task]" "''t9''" "''r.json''" "''2024-01-01T00:00:00Z''"
      "''boom''" "''e.json''"]
  note t1 = lifecycle_total [of "[sample_task]" "''t1''" "''r.json''" "''2024-01-01T00:00:00Z''"
      "''boom''" "''e.json''"]
  have again: "List.find (has_id ''t1'') (fst (mark_in_progress [sample_task] ''t1'')) =
      Some (set_in_progress sample_task)"
    by (simp add: mark_in_progress_def sample_task_def has_id_def dict_get_def
        set_in_progress_def dict_set_def)
  note t2 = lifecycle_total [of "fst (mark_in_progress [sample_task] ''t1'')" "''t1''" "''r.json''"
      "''2024-01-01T00:00:00Z''" "''boom''" "''e.json''"]
  have n1: "List.find (has_id ''t9'') [sample_task] = None"
    using absent by (simp add: find_None_iff)
  have m1: "snd (mark_in_progress [sample_task] ''t1'') = Marked"
    using t1 found st by simp
  have m2: "snd (mark_in_progress (fst (mark_in_progress [sample_task] ''t1'')) ''t1'') = NoChange"
    using t2 again by (simp add: set_in_progress_fields)
  then have m3: "fst (mark_in_progress (fst (mark_in_progress [sample_task] ''t1'')) ''t1'') =
     fst (mark_in_progress [sample_task] ''t1'')"
    using t2 by simp
  show ?thesis using t9 absent n1 found m1 m2 m3 by simp
qed

text \<open>
  The pending sample task satisfies the invariant; after \<^verbatim>\<open>mark_done\<close> it is
  \<^verbatim>\<open>done\<close> with the result path set and both error fields null, after
  \<^verbatim>\<open>mark_error\<close> it is \<^verbatim>\<open>error\<close> with the error fields set and the result path
  null, and the invariant holds of both lists.
\<close>

theorem lifecycle_preserves_invariant_witness:
  "task_invariant sample_task \<and> status_declared sample_task \<and>
   map (\<lambda>t. (dict_get t ''status'', dict_get t ''result_path'', dict_get t ''error_path'',
             dict_get t ''error_msg'', dict_get t ''completed_at''))
     (fst (mark_done [sample_task] ''t1'' ''r.json'' ''2024-01-01T00:00:00Z'')) =
     [(JStr ''done'', JStr ''r.json'', JNull, JNull, JStr ''2024-01-01T00:00:00Z'')] \<and>
   map (\<lambda>t. (dict_get t ''status'', dict_get t ''result_path'', dict_get t ''error_path'',
             dict_get t ''error_msg'', dict_get t ''completed_at''))
     (fst (mark_error [sample_task] ''t1'' ''boom'' ''e.json'' ''2024-01-01T00:00:00Z'')) =
     [(JStr ''error'', JNull, JStr ''e.json'', JStr ''boom'', JStr ''2024-01-01T00:00:00Z'')] \<and>
   list_all (\<lambda>t. task_invariant t \<and> status_declared t)
     (fst (mark_done [sample_task] ''t1'' ''r.json'' ''2024-01-01T00:00:00Z'')) \<and>
   list_all (\<lambda>t. task_invariant t \<and> status_declared t)
     (fst (mark_error [sample_task] ''t1'' ''boom'' ''e.json'' ''2024-01-01T00:00:00Z'')) \<and>
   list_all (\<lambda>t. task_invariant t \<and> status_declared t) (fst (mark_in_progress [sample_task] ''t1''))"
proof -
  have inv: "task_invariant sample_task \<and> status_declared sample_task"
    by (simp add: sample_task_def task_invariant_def status_declared_def dict_get_def)
  then have all: "\<forall>t\<in>set [sample_task]. task_invariant t \<and> status_declared t" by simp
  have found: "List.find (has_id ''t1'') [sample_task] = Some sample_task"
    by (simp add: sample_task_def has_id_def dict_get_def)
  have st: "dict_get sample_task ''status'' \<noteq> JStr ''done'' \<and>
            dict_get sample_task ''status'' \<noteq> JStr ''error''"
    by (simp add: sample_task_def dict_get_def)
  have len_d: "length (fst (mark_done [sample_task] ''t1'' ''r.json'' ''2024-01-01T00:00:00Z'')) = 1"
    by (simp add: mark_done_def Let_def split: option.splits)
  have len_e: "length (fst (mark_error [sample_task] ''t1'' ''boom'' ''e.json''
      ''2024-01-01T00:00:00Z'')) = 1"
    by (simp add: mark_error_def Let_def split: option.splits)
  note inst = lifecycle_preserves_invariant [OF all, of "''t1''" "''r.json''"
      "''2024-01-01T00:00:00Z''" "''boom''" "''e.json''"]
  from inst found st obtain d e where
    d: "List.find (has_id ''t1'') (fst (mark_done [sample_task] ''t1'' ''r.json''
          ''2024-01-01T00:00:00Z'')) = Some d"
       "dict_get d ''status'' = JStr ''done''" "dict_get d ''result_path'' = JStr ''r.json''"
       "dict_get d ''completed_at'' = JStr ''2024-01-01T00:00:00Z''"
       "dict_get d ''error_path'' = JNull" "dict_get d ''error_msg'' = JNull" and
    e: "List.find (has_id ''t1'') (fst (mark_error [sample_task] ''t1'' ''boom'' ''e.json''
          ''2024-01-01T00:00:00Z'')) = Some e"
       "dict_get e ''status'' = JStr ''error''" "dict_get e ''error_path'' = JStr ''e.json''"
       "dict_get e ''error_msg'' = JStr ''boom''"
       "dict_get e ''completed_at'' = JStr ''2024-01-01T00:00:00Z''"
       "dict_get e ''result_path'' = JNull"
    by blast
  have ld: "fst (mark_done [sample_task] ''t1'' ''r.json'' ''2024-01-01T00:00:00Z'') = [d]"
    using len_d d(1) find_SomeD [OF d(1)]
    by (cases "fst (mark_done [sample_task] ''t1'' ''r.json'' ''2024-01-01T00:00:00Z'')") auto
  have le: "fst (mark_error [sample_task] ''t1'' ''boom'' ''e.json'' ''2024-01-01T00:00:00Z'') = [e]"
    using len_e e(1) find_SomeD [OF e(1)]
    by (cases "fst (mark_error [sample_task] ''t1'' ''boom'' ''e.json'' ''2024-01-01T00:00:00Z'')") auto
  have "list_all (\<lambda>t. task_invariant t \<and> status_declared t) (fst (mark_in_progress [sample_task] ''t1''))"
    using inst by (simp add: list_all_iff)
  moreover have "list_all (\<lambda>t. task_invariant t \<and> status_declared t)
     (fst (mark_done [sample_task] ''t1'' ''r.json'' ''2024-01-01T00:00:00Z''))"
    using inst by (simp add: list_all_iff)
  moreover have "list_all (\<lambda>t. task_invariant t \<and> status_declared t)
     (fst (mark_error [sample_task] ''t1'' ''boom'' ''e.json'' ''2024-01-01T00:00:00Z''))"
    using inst by (simp add: list_all_iff)
  ultimately show ?thesis
    using inv d e by (simp add: ld le)
qed

text \<open>
  The pending sample task goes to either terminal status directly.
\<close>

theorem pending_to_terminal_witness:
  "List.find (has_id ''t1'') [sample_task] = Some sample_task \<and>
   dict_get sample_task ''status'' = JStr ''pending'' \<and>
   snd (mark_done [sample_task] ''t1'' ''r.json'' ''2024-01-01T00:00:00Z'') = Marked \<and>
   snd (mark_error [sample_task] ''t1'' ''boom'' ''e.json'' ''2024-01-01T00:00:00Z'') = Marked"
proof -
  have found: "List.find (has_id ''t1'') [sample_task] = Some sample_task"
    by (simp add: sample_task_def has_id_def dict_get_def)
  have st: "dict_get sample_task ''status'' = JStr ''pending''"
    by (simp add: sample_task_def dict_get_def)
  from pending_to_terminal [OF found st, of "''r.json''" "''2024-01-01T00:00:00Z''" "''boom''" "''e.json''"]
    found st
  show ?thesis by simp
qed

section \<open>Selecting pending tasks\<close>


lemma sort_pair_mixed:
  assumes "ka = KDate d \<and> kb = KStr s \<or> ka = KStr s \<and> kb = KDate d"
  shows "sort_loop [] [((p, ka), a), ((p, kb), b)] = Inl TypeError"
  using assms by (cases d) (auto simp: tuple_less_def)

text \<open>
  Claim C1, on the code. When the pending tasks of the list are two tasks of equal
  priority, the creation time of one parsing to a \<^verbatim>\<open>datetime\<close> and that of the other
  falling back to its string, \<^verbatim>\<open>iter_pending\<close> returns no list: the sort compares
  the \<^verbatim>\<open>datetime\<close> with the string and the \<^verbatim>\<open>TypeError\<close> leaves the call.
\<close>

theorem iter_pending_mixed_raises:
  assumes pend: "filter (\<lambda>task. dict_get task ''status'' = JStr ''pending'') items = [a, b]"
      and ka: "pending_key fromisoformat strptime a = Inr (p, KDate d)"
      and kb: "pending_key fromisoformat strptime b = Inr (p, KStr s)"
  shows "iter_pending fromisoformat strptime items = Inl TypeError"
proof -
  have "keyed fromisoformat strptime [a, b] = Inr [((p, KDate d), a), ((p, KStr s), b)]"
    using ka kb by simp
  moreover have "sort_loop [] [((p, KDate d), a), ((p, KStr s), b)] = Inl TypeError"
    by (rule sort_pair_mixed) simp
  ultimately show ?thesis
    using pend by (simp add: iter_pending_def)
qed

lemma pending_key_task_dated: "pending_key sample_parser sample_parser task_dated = Inr (- 1, KDate (Naive 1704067200000000))"
  by (simp add: pending_key_def task_dated_def dict_get_def dict_get_default_def neg_priority_def
      parse_datetime_def strip_def is_space_def endswith_Z_def sample_parser_def)

lemma pending_key_task_undated: "pending_key sample_parser sample_parser task_undated = Inr (- 1, KStr ''not-a-date'')"
  by (simp add: pending_key_def task_undated_def dict_get_def dict_get_default_def neg_priority_def
      parse_datetime_def strip_def is_space_def endswith_Z_def sample_parser_def)

text \<open>
  The two sample tasks, with a parser that accepts the time stamp of the first and
  rejects \<^verbatim>\<open>not-a-date\<close>.
\<close>

theorem iter_pending_mixed_raises_witness:
  "iter_pending sample_parser sample_parser [task_dated, task_undated] = Inl TypeError"
proof -
  have pend: "filter (\<lambda>task. dict_get task ''status'' = JStr ''pending'') [task_dated, task_undated]
      = [task_dated, task_undated]"
    by (simp add: task_dated_def task_undated_def dict_get_def)
  show ?thesis
    by (rule iter_pending_mixed_raises [OF pend pending_key_task_dated pending_key_task_undated])
qed


lemma str_less_iff: "str_less a b \<longleftrightarrow> a < b"
  by (induction a b rule: str_less.induct) (auto simp: less_char_def)

lemma rank_inj: "rank a = rank b \<longleftrightarrow> a = b"
  by (induction a rule: rank.induct; induction b rule: rank.induct) auto

lemma tuple_less_rank: "tuple_less a b = Inr r \<Longrightarrow> r = (rank a < rank b)"
  by (induction a rule: rank.induct; induction b rule: rank.induct)
     (auto simp: tuple_less_def str_less_iff split: if_splits)

lemma insert_sorted_place:
  "\<forall>y\<in>set acc. \<exists>r. tuple_less (fst x) (fst y) = Inr r \<Longrightarrow> insert_sorted x acc = Inr (place x acc)"
proof (induction acc)
  case Nil
  then show ?case by simp
next
  case (Cons y acc)
  then obtain r where r: "tuple_less (fst x) (fst y) = Inr r" by auto
  have "r = (rank (fst x) < rank (fst y))" using r by (rule tuple_less_rank)
  then show ?case using Cons r by simp
qed

lemma mset_place: "mset (place x acc) = add_mset x (mset acc)"
  by (induction acc) auto

lemma set_place: "set (place x acc) = insert x (set acc)"
  by (induction acc) auto

lemma sorted_place:
  "sorted (map (rank \<circ> fst) acc) \<Longrightarrow> sorted (map (rank \<circ> fst) (place x acc))"
  by (induction acc) (auto simp: set_place)

lemma filter_place:
  "sorted (map (rank \<circ> fst) acc) \<Longrightarrow>
   filter (\<lambda>z. fst z = k) (place x acc) =
     filter (\<lambda>z. fst z = k) acc @ (if fst x = k then [x] else [])"
proof (induction acc)
  case Nil
  then show ?case by simp
next
  case (Cons y acc)
  show ?case
  proof (cases "rank (fst x) < rank (fst y)")
    case True
    have "\<forall>z\<in>set (y # acc). fst z \<noteq> fst x"
    proof
      fix z assume "z \<in> set (y # acc)"
      then have "rank (fst y) \<le> rank (fst z)" using Cons.prems by auto
      then have "rank (fst x) < rank (fst z)" using True by simp
      then show "fst z \<noteq> fst x" by auto
    qed
    then have "filter (\<lambda>z. fst z = fst x) (y # acc) = []"
      by (simp add: filter_empty_conv)
    then show ?thesis using True by auto
  next
    case False
    then show ?thesis using Cons by auto
  qed
qed

lemma sort_loop_sorted:
  assumes "comparable (fst ` (set acc \<union> set xs))" and "sorted (map (rank \<circ> fst) acc)"
  shows "\<exists>r. sort_loop acc xs = Inr r \<and> mset r = mset acc + mset xs \<and>
           sorted (map (rank \<circ> fst) r) \<and>
           (\<forall>k. filter (\<lambda>z. fst z = k) r = filter (\<lambda>z. fst z = k) acc @ filter (\<lambda>z. fst z = k) xs)"
  using assms
proof (induction xs arbitrary: acc)
  case Nil
  then show ?case by simp
next
  case (Cons x xs)
  have "\<forall>y\<in>set acc. \<exists>r. tuple_less (fst x) (fst y) = Inr r"
    using Cons.prems(1) by (auto simp: comparable_def)
  then have ins: "insert_sorted x acc = Inr (place x acc)" by (rule insert_sorted_place)
  have c: "comparable (fst ` (set (place x acc) \<union> set xs))"
    using Cons.prems(1) by (simp add: set_place insert_commute)
  have s: "sorted (map (rank \<circ> fst) (place x acc))"
    using Cons.prems(2) by (rule sorted_place)
  from Cons.IH [OF c s] obtain r where
    r: "sort_loop (place x acc) xs = Inr r" "mset r = mset (place x acc) + mset xs"
       "sorted (map (rank \<circ> fst) r)"
       "\<forall>k. filter (\<lambda>z. fst z = k) r =
            filter (\<lambda>z. fst z = k) (place x acc) @ filter (\<lambda>z. fst z = k) xs"
    by blast
  have "sort_loop acc (x # xs) = Inr r" using ins r(1) by simp
  moreover have "mset r = mset acc + mset (x # xs)" using r(2) by (simp add: mset_place)
  moreover have "\<forall>k. filter (\<lambda>z. fst z = k) r =
      filter (\<lambda>z. fst z = k) acc @ filter (\<lambda>z. fst z = k) (x # xs)"
    using r(4) filter_place [OF Cons.prems(2)] by auto
  ultimately show ?case using r(3) by blast
qed


lemma keyed_Inr:
  "keyed fromisoformat strptime xs = Inr ks \<Longrightarrow>
     map snd ks = xs \<and> (\<forall>z\<in>set ks. pending_key fromisoformat strptime (snd z) = Inr (fst z))"
proof (induction xs arbitrary: ks)
  case Nil
  then show ?case by simp
next
  case (Cons x xs)
  from Cons.prems obtain k ks' where
    k: "pending_key fromisoformat strptime x = Inr k" and
    r: "keyed fromisoformat strptime xs = Inr ks'" and
    e: "ks = (k, x) # ks'"
    by (auto split: sum.splits)
  from Cons.IH [OF r] k e show ?case by simp
qed

lemma sort_loop_stable_sort:
  assumes "comparable (fst ` set ks)"
  shows "sort_loop [] ks = Inr (sort_key (rank \<circ> fst) ks)"
proof -
  from sort_loop_sorted [of "[]" ks] assms obtain r where
    r: "sort_loop [] ks = Inr r" "mset r = mset ks" "sorted (map (rank \<circ> fst) r)"
       "\<forall>k. filter (\<lambda>z. fst z = k) r = filter (\<lambda>z. fst z = k) ks"
    by auto
  have "sort_key (rank \<circ> fst) ks = r"
  proof (rule properties_for_sort_key)
    show "mset r = mset ks" by (rule r(2))
    show "sorted (map (rank \<circ> fst) r)" by (rule r(3))
    fix k assume "k \<in> set r"
    show "filter (\<lambda>x. (rank \<circ> fst) k = (rank \<circ> fst) x) r =
          filter (\<lambda>x. (rank \<circ> fst) k = (rank \<circ> fst) x) ks"
      using r(4) [rule_format, of "fst k"] by (simp add: rank_inj eq_commute)
  qed
  then show ?thesis using r(1) by simp
qed

text \<open>
  Property X1. Where the key of every pending task can be computed and Python can order
  every two of the keys (the creation times all parse to naive values, say, or all fall
  back to strings, or tasks of equal priority never mix the kinds), \<^verbatim>\<open>iter_pending\<close>
  returns the stable sort of the pending tasks: exactly the pending tasks; of two
  returned tasks the earlier one has no lower priority, and the key of the later one is
  not less than its key; and tasks of equal key keep the order of the input.
\<close>

theorem iter_pending_stable_sort:
  assumes keys: "keyed fromisoformat strptime
                   (filter (\<lambda>task. dict_get task ''status'' = JStr ''pending'') items) = Inr ks"
      and cmp: "comparable (fst ` set ks)"
  shows "iter_pending fromisoformat strptime items = Inr (map snd (sort_key (rank \<circ> fst) ks)) \<and>
         mset (map snd (sort_key (rank \<circ> fst) ks)) =
           mset (filter (\<lambda>task. dict_get task ''status'' = JStr ''pending'') items) \<and>
         sorted_wrt (\<lambda>x y. fst (fst x) \<le> fst (fst y) \<and> tuple_less (fst y) (fst x) = Inr False)
           (sort_key (rank \<circ> fst) ks) \<and>
         (\<forall>k. filter (\<lambda>z. fst z = k) (sort_key (rank \<circ> fst) ks) = filter (\<lambda>z. fst z = k) ks)"
proof -
  let ?r = "sort_key (rank \<circ> fst) ks"
  have run: "iter_pending fromisoformat strptime items = Inr (map snd ?r)"
    using keys sort_loop_stable_sort [OF cmp] by (simp add: iter_pending_def)
  have "mset (map snd ?r) = mset (map snd ks)"
    by simp
  then have same: "mset (map snd ?r) =
      mset (filter (\<lambda>task. dict_get task ''status'' = JStr ''pending'') items)"
    using keyed_Inr [OF keys] by simp
  have srt: "sorted (map (rank \<circ> fst) ?r)" by (rule sorted_sort_key)
  have ord: "sorted_wrt (\<lambda>x y. fst (fst x) \<le> fst (fst y) \<and> tuple_less (fst y) (fst x) = Inr False) ?r"
  proof -
    have "sorted_wrt (\<lambda>x y. rank (fst x) \<le> rank (fst y)) ?r"
      using srt by (simp add: sorted_map comp_def)
    moreover have "fst (fst x) \<le> fst (fst y) \<and> tuple_less (fst y) (fst x) = Inr False"
      if "x \<in> set ?r" "y \<in> set ?r" "rank (fst x) \<le> rank (fst y)" for x y
    proof -
      from that(1,2) cmp obtain b where b: "tuple_less (fst y) (fst x) = Inr b"
        by (auto simp: comparable_def)
      from tuple_less_rank [OF b] that(3) have "\<not> b" by auto
      moreover have "fst (fst x) \<le> fst (fst y)"
        using that(3) by (cases "fst x" rule: rank.cases; cases "fst y" rule: rank.cases) auto
      ultimately show ?thesis using b by simp
    qed
    ultimately show ?thesis by (rule sorted_wrt_mono_rel [rotated]) auto
  qed
  have stab: "filter (\<lambda>z. fst z = k) ?r = filter (\<lambda>z. fst z = k) ks" for k
  proof -
    have "filter (\<lambda>z. (rank \<circ> fst) z = rank k) ?r = filter (\<lambda>z. (rank \<circ> fst) z = rank k) ks"
      by (rule sort_key_stable)
    then show ?thesis by (simp add: rank_inj)
  qed
  show ?thesis using run same ord stab by blast
qed


lemma pending_key_sample_task: "pending_key sample_parser sample_parser sample_task = Inr (- 5, KNone)"
  by (simp add: pending_key_def sample_task_def dict_get_def dict_get_default_def neg_priority_def
      parse_datetime_def)

text \<open>
  The dated sample task of priority 1 and the undated one of priority 5: the higher
  priority comes first.
\<close>

theorem iter_pending_stable_sort_witness:
  "iter_pending sample_parser sample_parser [task_dated, sample_task] =
     Inr [sample_task, task_dated]"
proof -
  let ?ks = "[((- 1, KDate (Naive 1704067200000000)), task_dated), ((- 5, KNone), sample_task)]"
  have s1: "dict_get task_dated ''status'' = JStr ''pending''"
    by (simp add: task_dated_def dict_get_def)
  have s2: "dict_get sample_task ''status'' = JStr ''pending''"
    by (simp add: sample_task_def dict_get_def)
  have pend: "filter (\<lambda>task. dict_get task ''status'' = JStr ''pending'') [task_dated, sample_task]
      = [task_dated, sample_task]"
    using s1 s2 by simp
  have keys0: "keyed sample_parser sample_parser [task_dated, sample_task] = Inr ?ks"
    by (simp add: pending_key_task_dated pending_key_sample_task)
  have keys: "keyed sample_parser sample_parser
      (filter (\<lambda>task. dict_get task ''status'' = JStr ''pending'') [task_dated, sample_task]) = Inr ?ks"
    unfolding pend by (rule keys0)
  have cmp: "comparable (fst ` set ?ks)"
    by (auto simp: comparable_def tuple_less_def)
  have "sort_key (rank \<circ> fst) ?ks =
      [((- 5, KNone), sample_task), ((- 1, KDate (Naive 1704067200000000)), task_dated)]"
    by simp
  then show ?thesis
    using iter_pending_stable_sort [OF keys cmp] by simp
qed

section \<open>The UTF-8 codec\<close>


lemma decode1:
  "(of_char b0 :: nat) < 0x80 \<Longrightarrow>
   utf8_decode (b0 # rest) = map_option (Cons (of_char b0)) (utf8_decode rest)"
  by (simp add: Let_def)

lemma decode2:
  "0xC2 \<le> (of_char b0 :: nat) \<Longrightarrow> (of_char b0 :: nat) \<le> 0xDF \<Longrightarrow> continuation b1 \<Longrightarrow>
   utf8_decode (b0 # b1 # rest) =
     map_option (Cons ((of_char b0 - 0xC0) * 0x40 + (of_char b1 - 0x80))) (utf8_decode rest)"
  by (simp add: Let_def)

lemma decode3:
  "0xE0 \<le> (of_char b0 :: nat) \<Longrightarrow> (of_char b0 :: nat) \<le> 0xEF \<Longrightarrow>
   continuation b1 \<Longrightarrow> continuation b2 \<Longrightarrow>
   c = (of_char b0 - 0xE0) * 0x1000 + (of_char b1 - 0x80) * 0x40 + (of_char b2 - 0x80) \<Longrightarrow>
   0x800 \<le> c \<Longrightarrow> \<not> surrogate c \<Longrightarrow>
   utf8_decode (b0 # b1 # b2 # rest) = map_option (Cons c) (utf8_decode rest)"
  by (simp add: Let_def)

lemma decode4:
  "0xF0 \<le> (of_char b0 :: nat) \<Longrightarrow> (of_char b0 :: nat) \<le> 0xF4 \<Longrightarrow>
   continuation b1 \<Longrightarrow> continuation b2 \<Longrightarrow> continuation b3 \<Longrightarrow>
   c = (of_char b0 - 0xF0) * 0x40000 + (of_char b1 - 0x80) * 0x1000 +
       (of_char b2 - 0x80) * 0x40 + (of_char b3 - 0x80) \<Longrightarrow>
   0x10000 \<le> c \<Longrightarrow> c < 0x110000 \<Longrightarrow>
   utf8_decode (b0 # b1 # b2 # b3 # rest) = map_option (Cons c) (utf8_decode rest)"
  by (simp add: Let_def)


lemma lead_byte: "n < 256 \<Longrightarrow> (of_char (char_of n) :: nat) = n"
  by simp

lemma tail_byte:
  "m < 0x40 \<Longrightarrow> (of_char (char_of (0x80 + m)) :: nat) = 0x80 + m \<and> continuation (char_of (0x80 + m))"
  by (simp add: continuation_def)


lemma split_code_point:
  fixes c :: nat
  defines "a \<equiv> c div 0x40" and "b \<equiv> c div 0x1000" and "d \<equiv> c div 0x40000"
  shows "c = a * 0x40 + c mod 0x40" and "a = b * 0x40 + a mod 0x40" and "b = d * 0x40 + b mod 0x40"
proof -
  have ab: "b = a div 0x40" unfolding a_def b_def by (simp add: div_mult2_eq [symmetric])
  have bd: "d = b div 0x40" unfolding b_def d_def by (simp add: div_mult2_eq [symmetric])
  show "c = a * 0x40 + c mod 0x40" unfolding a_def by simp
  show "a = b * 0x40 + a mod 0x40" unfolding ab by simp
  show "b = d * 0x40 + b mod 0x40" unfolding bd by simp
qed

lemma utf8_decode_char:
  assumes "utf8_encode_char c = Some bs"
  shows "utf8_decode (bs @ rest) = map_option (Cons c) (utf8_decode rest)"
proof -
  define a where "a = c div 0x40"
  define b where "b = c div 0x1000"
  define d where "d = c div 0x40000"
  define c0 where "c0 = c mod 0x40"
  define a0 where "a0 = a mod 0x40"
  define b0 where "b0 = b mod 0x40"
  have s1: "c = a * 0x40 + c0" and s2: "a = b * 0x40 + a0" and s3: "b = d * 0x40 + b0"
    unfolding a_def b_def d_def c0_def a0_def b0_def by (rule split_code_point)+
  have lt: "c0 < 0x40" "a0 < 0x40" "b0 < 0x40"
    unfolding c0_def a0_def b0_def by simp_all
  note t = tail_byte [OF lt(1)] tail_byte [OF lt(2)] tail_byte [OF lt(3)]
  consider "c < 0x80" | "0x80 \<le> c" "c < 0x800" | "0x800 \<le> c" "c < 0x10000" "\<not> surrogate c"
    | "0x10000 \<le> c" "c < 0x110000"
    using assms by (auto simp: utf8_encode_char_def split: if_splits)
  then show ?thesis
  proof cases
    case 1
    then have "bs = [char_of c]" using assms by (simp add: utf8_encode_char_def)
    then show ?thesis using 1 by (simp add: decode1)
  next
    case 2
    then have bs: "bs = [char_of (0xC0 + a), char_of (0x80 + c0)]"
      using assms by (simp add: utf8_encode_char_def a_def c0_def)
    have r: "a < 0x20" "2 \<le> a" using 2 s1 lt by linarith+
    have l: "(of_char (char_of (0xC0 + a)) :: nat) = 0xC0 + a"
      using r by (intro lead_byte) linarith
    have "utf8_decode (char_of (0xC0 + a) # char_of (0x80 + c0) # rest) =
        map_option (Cons ((0xC0 + a - 0xC0) * 0x40 + (0x80 + c0 - 0x80))) (utf8_decode rest)"
      using decode2 [of "char_of (0xC0 + a)" "char_of (0x80 + c0)" rest] t(1) r
      by (simp only: l)
    then show ?thesis unfolding bs using s1 by simp
  next
    case 3
    then have bs: "bs = [char_of (0xE0 + b), char_of (0x80 + a0), char_of (0x80 + c0)]"
      using assms by (simp add: utf8_encode_char_def a_def b_def a0_def c0_def)
    have r: "b < 0x10" using 3 s1 s2 lt by linarith
    have l: "(of_char (char_of (0xE0 + b)) :: nat) = 0xE0 + b"
      using r by (intro lead_byte) linarith
    have v: "(0xE0 + b - 0xE0) * 0x1000 + (0x80 + a0 - 0x80) * 0x40 + (0x80 + c0 - 0x80) = c"
      using s1 s2 by simp
    have "utf8_decode (char_of (0xE0 + b) # char_of (0x80 + a0) # char_of (0x80 + c0) # rest) =
        map_option (Cons c) (utf8_decode rest)"
    proof (rule decode3)
      show "0xE0 \<le> (of_char (char_of (0xE0 + b)) :: nat)" by (simp only: l; simp)
      show "(of_char (char_of (0xE0 + b)) :: nat) \<le> 0xEF" using r by (simp only: l; simp)
      show "continuation (char_of (0x80 + a0))" using t(2) by simp
      show "continuation (char_of (0x80 + c0))" using t(1) by simp
      show "c = (of_char (char_of (0xE0 + b)) - 0xE0) * 0x1000 +
          (of_char (char_of (0x80 + a0)) - 0x80) * 0x40 + (of_char (char_of (0x80 + c0)) - 0x80)"
        using v t(1) t(2) by (simp only: l; simp)
      show "0x800 \<le> c" by (rule 3(1))
      show "\<not> surrogate c" by (rule 3(3))
    qed
    then show ?thesis unfolding bs by simp
  next
    case 4
    then have bs: "bs = [char_of (0xF0 + d), char_of (0x80 + b0), char_of (0x80 + a0),
        char_of (0x80 + c0)]"
      using assms by (simp add: utf8_encode_char_def a_def b_def d_def a0_def b0_def c0_def)
    have r: "d < 5" using 4 s1 s2 s3 lt by linarith
    have l: "(of_char (char_of (0xF0 + d)) :: nat) = 0xF0 + d"
      using r by (intro lead_byte) linarith
    have v: "(0xF0 + d - 0xF0) * 0x40000 + (0x80 + b0 - 0x80) * 0x1000 + (0x80 + a0 - 0x80) * 0x40
        + (0x80 + c0 - 0x80) = c"
      using s1 s2 s3 by simp
    have "utf8_decode (char_of (0xF0 + d) # char_of (0x80 + b0) # char_of (0x80 + a0) #
          char_of (0x80 + c0) # rest) = map_option (Cons c) (utf8_decode rest)"
    proof (rule decode4)
      show "0xF0 \<le> (of_char (char_of (0xF0 + d)) :: nat)" by (simp only: l; simp)
      show "(of_char (char_of (0xF0 + d)) :: nat) \<le> 0xF4" using r by (simp only: l; simp)
      show "continuation (char_of (0x80 + b0))" using t(3) by simp
      show "continuation (char_of (0x80 + a0))" using t(2) by simp
      show "continuation (char_of (0x80 + c0))" using t(1) by simp
      show "c = (of_char (char_of (0xF0 + d)) - 0xF0) * 0x40000 +
          (of_char (char_of (0x80 + b0)) - 0x80) * 0x1000 +
          (of_char (char_of (0x80 + a0)) - 0x80) * 0x40 + (of_char (char_of (0x80 + c0)) - 0x80)"
        using v t by (simp only: l; simp)
      show "0x10000 \<le> c" by (rule 4(1))
      show "c < 0x110000" by (rule 4(2))
    qed
    then show ?thesis unfolding bs by simp
  qed
qed

lemma utf8_decode_encode: "utf8_encode t = Some b \<Longrightarrow> utf8_decode b = Some t"
proof (induction t arbitrary: b)
  case Nil
  then show ?case by simp
next
  case (Cons c t)
  from Cons.prems obtain x y where x: "utf8_encode_char c = Some x" and y: "utf8_encode t = Some y"
    and b: "b = x @ y"
    by (auto split: option.splits)
  show ?case
    unfolding b by (simp only: utf8_decode_char [OF x] Cons.IH [OF y]) simp
qed

section \<open>The queue file\<close>


lemma utf8_encode_append:
  "utf8_encode (s @ t) =
     (case utf8_encode s of None \<Rightarrow> None
      | Some x \<Rightarrow> (case utf8_encode t of None \<Rightarrow> None | Some y \<Rightarrow> Some (x @ y)))"
  by (induction s) (auto split: option.splits)

lemma utf8_encode_char_None: "utf8_encode_char c = None \<longleftrightarrow> surrogate c \<or> 0x110000 \<le> c"
  by (auto simp: utf8_encode_char_def surrogate_def)

lemma encodable_Cons: "encodable (c # s) \<longleftrightarrow> utf8_encode_char c \<noteq> None \<and> encodable s"
  by (auto simp: encodable_def utf8_encode_char_None)

lemma utf8_encode_Some: "utf8_encode s \<noteq> None \<longleftrightarrow> encodable s"
proof (induction s)
  case Nil
  show ?case by (simp add: encodable_def)
next
  case (Cons c s)
  show ?case
  proof (cases "utf8_encode_char c")
    case None
    then show ?thesis by (simp add: encodable_Cons)
  next
    case (Some b)
    then show ?thesis using Cons by (cases "utf8_encode s") (simp_all add: encodable_Cons)
  qed
qed

lemma utf8_decode_ascii_prefix:
  "\<forall>b\<in>set bs. (of_char b :: nat) < 0x80 \<Longrightarrow>
   utf8_decode (bs @ rest) = map_option ((@) (cp bs)) (utf8_decode rest)"
proof (induction bs)
  case Nil
  show ?case by (cases "utf8_decode rest") (simp_all add: cp_def)
next
  case (Cons b bs)
  then show ?case by (cases "utf8_decode rest") (simp_all add: cp_def Let_def)
qed

lemma utf8_decode_ascii:
  "\<forall>b\<in>set bs. (of_char b :: nat) < 0x80 \<Longrightarrow> utf8_decode bs = Some (cp bs)"
  using utf8_decode_ascii_prefix [of bs "[]"] by simp

lemma utf8_encode_ascii:
  "\<forall>b\<in>set bs. (of_char b :: nat) < 0x80 \<Longrightarrow> utf8_encode (cp bs) = Some bs"
  by (induction bs) (simp_all add: cp_def utf8_encode_char_def)

lemma text_lines_LF: "text_lines (10 # rest) = [10] # text_lines rest"
  by (cases rest) simp_all

lemma text_lines_line:
  "10 \<notin> set s \<Longrightarrow> 13 \<notin> set s \<Longrightarrow> text_lines (s @ 10 # rest) = (s @ [10]) # text_lines rest"
proof (induction s)
  case Nil
  then show ?case by (simp add: text_lines_LF)
next
  case (Cons c s)
  obtain d ds where tl: "s @ 10 # rest = d # ds"
    by (cases "s @ 10 # rest") simp_all
  have ih: "text_lines (d # ds) = (s @ [10]) # text_lines rest"
    using Cons by (simp flip: tl)
  have "text_lines (c # d # ds) = (c # s @ [10]) # text_lines rest"
    using Cons.prems ih by auto
  then show ?case by (simp add: tl)
qed

lemma rstrip_line:
  "10 \<notin> set s \<Longrightarrow> 13 \<notin> set s \<Longrightarrow> rstrip_newlines (s @ [10]) = s"
proof -
  assume a: "10 \<notin> set s" "13 \<notin> set s"
  have "\<forall>c\<in>set (rev s). \<not> (c = 10 \<or> c = 13)"
    using a by auto
  then have "dropWhile (\<lambda>c. c = 10 \<or> c = 13) (rev s) = rev s"
    by (cases "rev s") simp_all
  then show ?thesis by (simp add: rstrip_newlines_def)
qed

lemma text_lines_concat:
  "\<forall>s\<in>set ss. 10 \<notin> set s \<and> 13 \<notin> set s \<Longrightarrow>
   text_lines (concat (map (\<lambda>s. s @ [10]) ss)) = map (\<lambda>s. s @ [10]) ss"
  by (induction ss) (simp_all add: text_lines_line)

lemma write_items_ok:
  "write_items dumps fault i items acc = (None, c) \<Longrightarrow>
     (\<forall>t\<in>set items. \<exists>s. dumps t = Inr s) \<and>
     (\<exists>b. utf8_encode (concat (map (\<lambda>t. dumped dumps t @ [10]) items)) = Some b \<and> c = acc @ b)"
proof (induction items arbitrary: i acc)
  case Nil
  then show ?case by simp
next
  case (Cons t items)
  from Cons.prems obtain s where s: "dumps t = Inr s"
    by (cases "dumps t") simp_all
  from Cons.prems s obtain b where b: "utf8_encode (s @ [10]) = Some b"
    by (cases "utf8_encode (s @ [10])") simp_all
  from Cons.prems s b have rest: "write_items dumps fault (Suc i) items (acc @ b) = (None, c)"
    by (simp split: if_splits)
  from Cons.IH [OF rest] obtain b' where
    all: "\<forall>t\<in>set items. \<exists>s. dumps t = Inr s" and
    e: "utf8_encode (concat (map (\<lambda>t. dumped dumps t @ [10]) items)) = Some b'" and
    c: "c = (acc @ b) @ b'"
    by blast
  have "utf8_encode (concat (map (\<lambda>t. dumped dumps t @ [10]) (t # items))) = Some (b @ b')"
    using s b e utf8_encode_append [of "s @ [10]"] by (simp add: dumped_def)
  then show ?case using s all c by auto
qed

lemma write_items_no_fault:
  "\<forall>t\<in>set items. \<exists>s. dumps t = Inr s \<and> encodable s \<Longrightarrow>
   fst (write_items dumps None i items acc) = None"
proof (induction items arbitrary: i acc)
  case Nil
  then show ?case by simp
next
  case (Cons t items)
  from Cons.prems obtain s where s: "dumps t = Inr s" "encodable s" by auto
  then have "encodable (s @ [10])" by (simp add: encodable_def surrogate_def)
  then obtain b where b: "utf8_encode (s @ [10]) = Some b"
    using utf8_encode_Some [of "s @ [10]"] by auto
  show ?case using s b Cons by simp
qed

subsection \<open>Loading\<close>

lemma load_lines_spec:
  "\<not> list_ex (\<lambda>(idx, line). case loads line of ParserRaises e \<Rightarrow> True | _ \<Rightarrow> False) (nonempty_of ls) \<Longrightarrow>
   load_lines loads valid ls items n log =
     Inr (items @ List.map_filter (\<lambda>(idx, line). accepted loads valid line) (nonempty_of ls),
          n + length (nonempty_of ls),
          log @ List.map_filter (skip_event loads valid) (nonempty_of ls))"
proof (induction ls arbitrary: items n log)
  case Nil
  then show ?case by (simp add: nonempty_of_def map_filter_simps)
next
  case (Cons a ls)
  obtain idx raw where a: "a = (idx, raw)" by (cases a)
  have rest: "\<not> list_ex (\<lambda>(idx, line). case loads line of ParserRaises e \<Rightarrow> True | _ \<Rightarrow> False) (nonempty_of ls)"
    using Cons.prems by (simp add: nonempty_of_def a split: if_splits)
  show ?case
  proof (cases "rstrip_newlines raw = []")
    case True
    then show ?thesis
      unfolding a using Cons.IH [OF rest] by (simp add: nonempty_of_def)
  next
    case False
    then have nr: "\<not> (case loads (rstrip_newlines raw) of ParserRaises e \<Rightarrow> True | _ \<Rightarrow> False)"
      using Cons.prems by (simp add: nonempty_of_def a)
    show ?thesis
      unfolding a using False nr Cons.IH [OF rest]
      by (cases "loads (rstrip_newlines raw)")
         (simp_all add: nonempty_of_def map_filter_simps accepted_def skip_event_def Let_def)
  qed
qed

lemma load_lines_raises:
  "list_ex (\<lambda>(idx, line). case loads line of ParserRaises e \<Rightarrow> True | _ \<Rightarrow> False) (nonempty_of ls) \<Longrightarrow>
   \<exists>e idx line. (idx, line) \<in> set (nonempty_of ls) \<and> loads line = ParserRaises e \<and>
      load_lines loads valid ls items n log = Inl e"
proof (induction ls arbitrary: items n log)
  case Nil
  then show ?case by (simp add: nonempty_of_def)
next
  case (Cons a ls)
  obtain idx raw where a: "a = (idx, raw)" by (cases a)
  show ?case
  proof (cases "rstrip_newlines raw = []")
    case True
    then have ne: "nonempty_of (a # ls) = nonempty_of ls"
      by (simp add: nonempty_of_def a)
    have run: "load_lines loads valid (a # ls) items n log = load_lines loads valid ls items n log"
      using True by (simp add: a)
    show ?thesis
      using Cons.IH [of items n log] Cons.prems unfolding ne run by simp
  next
    case False
    then have ne: "nonempty_of (a # ls) = (idx, rstrip_newlines raw) # nonempty_of ls"
      by (simp add: nonempty_of_def a)
    show ?thesis
    proof (cases "loads (rstrip_newlines raw)")
      case (Parsed entry)
      then have rest: "list_ex (\<lambda>(idx, line). case loads line of ParserRaises e \<Rightarrow> True | _ \<Rightarrow> False) (nonempty_of ls)"
        using Cons.prems by (simp add: ne)
      show ?thesis
      proof (cases "valid entry")
        case True
        have run: "load_lines loads valid (a # ls) items n log =
            load_lines loads valid ls (items @ [entry]) (n + 1) log"
          using False Parsed True by (simp add: a)
        from Cons.IH [OF rest, of "items @ [entry]" "n + 1" log] show ?thesis
          unfolding run ne by auto
      next
        case nv: False
        have run: "load_lines loads valid (a # ls) items n log =
            load_lines loads valid ls items (n + 1) (log @ [EntryInvalid idx])"
          using False Parsed nv by (simp add: a)
        from Cons.IH [OF rest, of items "n + 1" "log @ [EntryInvalid idx]"] show ?thesis
          unfolding run ne by auto
      qed
    next
      case NotJSON
      then have rest: "list_ex (\<lambda>(idx, line). case loads line of ParserRaises e \<Rightarrow> True | _ \<Rightarrow> False) (nonempty_of ls)"
        using Cons.prems by (simp add: ne)
      have run: "load_lines loads valid (a # ls) items n log =
          load_lines loads valid ls items (n + 1) (log @ [ParseFailed idx])"
        using False NotJSON by (simp add: a)
      from Cons.IH [OF rest, of items "n + 1" "log @ [ParseFailed idx]"] show ?thesis
        unfolding run ne by auto
    next
      case (ParserRaises e)
      have run: "load_lines loads valid (a # ls) items n log = Inl e"
        using False ParserRaises by (simp add: a)
      show ?thesis
        unfolding run ne using ParserRaises by auto
    qed
  qed
qed

lemma accepted_or_skipped:
  "\<not> list_ex (\<lambda>(idx, line). case loads line of ParserRaises e \<Rightarrow> True | _ \<Rightarrow> False) ls \<Longrightarrow>
   length (List.map_filter (\<lambda>(idx, line). accepted loads valid line) ls) +
   length (List.map_filter (skip_event loads valid) ls) = length ls"
proof (induction ls)
  case Nil
  then show ?case by (simp add: map_filter_simps)
next
  case (Cons a ls)
  obtain idx line where a: "a = (idx, line)" by (cases a)
  show ?case
    using Cons unfolding a
    by (cases "loads line") (simp_all add: map_filter_simps accepted_def skip_event_def)
qed

text \<open>
  Claim C8 does not hold of the code: a line can end the load. The docstring of
  \<^verbatim>\<open>load_queue\<close> says that lines that are not valid JSON are skipped with an error
  logged, but the file is read as strict UTF-8 and the handler around \<^verbatim>\<open>json.loads\<close>
  names \<^verbatim>\<open>json.JSONDecodeError\<close> only. So for a queue file that exists: when its bytes
  are not UTF-8, \<^verbatim>\<open>load_queue\<close> raises \<^verbatim>\<open>UnicodeDecodeError\<close>, or the exception that
  \<^verbatim>\<open>json.loads\<close> raises on a line yielded before; and when the file is UTF-8 and
  \<^verbatim>\<open>json.loads\<close> raises an exception other than \<^verbatim>\<open>json.JSONDecodeError\<close> on some
  non-empty line, \<^verbatim>\<open>load_queue\<close> raises such an exception. In both cases no record is
  returned, not even those of the lines before.
\<close>

theorem load_queue_aborts:
  assumes stored: "fs path = Some content"
  shows "(utf8_decode content = None \<longrightarrow>
            load_queue loads valid yielded fs path = Inl UnicodeDecodeError \<or>
            (\<exists>e idx line. (idx, line) \<in> set (nonempty_of (List.enumerate 1 (yielded content))) \<and>
               loads line = ParserRaises e \<and> load_queue loads valid yielded fs path = Inl e)) \<and>
         (\<forall>decoded. utf8_decode content = Some decoded \<and> parser_raises loads decoded \<longrightarrow>
            (\<exists>e idx line. (idx, line) \<in> set (nonempty_lines decoded) \<and>
               loads line = ParserRaises e \<and> load_queue loads valid yielded fs path = Inl e))"
proof (intro conjI impI allI)
  assume u: "utf8_decode content = None"
  let ?ls = "List.enumerate 1 (yielded content)"
  show "load_queue loads valid yielded fs path = Inl UnicodeDecodeError \<or>
        (\<exists>e idx line. (idx, line) \<in> set (nonempty_of ?ls) \<and>
           loads line = ParserRaises e \<and> load_queue loads valid yielded fs path = Inl e)"
  proof (cases "list_ex (\<lambda>(idx, line). case loads line of ParserRaises e \<Rightarrow> True | _ \<Rightarrow> False)
      (nonempty_of ?ls)")
    case True
    from load_lines_raises [OF True, of valid "[]" 0 "[]"] obtain e idx line where
      m: "(idx, line) \<in> set (nonempty_of ?ls)" and r: "loads line = ParserRaises e" and
      l: "load_lines loads valid ?ls [] 0 [] = Inl e"
      by blast
    have "load_queue loads valid yielded fs path = Inl e"
      using stored u l by (simp add: load_queue_def)
    with m r show ?thesis by blast
  next
    case False
    from load_lines_spec [OF False, of valid "[]" 0 "[]"]
    have "load_queue loads valid yielded fs path = Inl UnicodeDecodeError"
      using stored u by (simp add: load_queue_def)
    then show ?thesis by simp
  qed
next
  fix decoded
  assume a: "utf8_decode content = Some decoded \<and> parser_raises loads decoded"
  then have "list_ex (\<lambda>(idx, line). case loads line of ParserRaises e \<Rightarrow> True | _ \<Rightarrow> False)
      (nonempty_of (List.enumerate 1 (text_lines decoded)))"
    by (simp add: parser_raises_def nonempty_lines_def)
  from load_lines_raises [OF this, of valid "[]" 0 "[]"] obtain e idx line where
    m: "(idx, line) \<in> set (nonempty_lines decoded)" and r: "loads line = ParserRaises e" and
    l: "load_lines loads valid (List.enumerate 1 (text_lines decoded)) [] 0 [] = Inl e"
    unfolding nonempty_lines_def by blast
  have "load_queue loads valid yielded fs path = Inl e"
    using stored a l by (simp add: load_queue_def)
  with m r show "\<exists>e idx line. (idx, line) \<in> set (nonempty_lines decoded) \<and>
               loads line = ParserRaises e \<and> load_queue loads valid yielded fs path = Inl e"
    by blast
qed

text \<open>
  What does hold of \<^verbatim>\<open>load_queue\<close>: for a queue file that is UTF-8 and on whose lines
  \<^verbatim>\<open>json.loads\<close> raises nothing but \<^verbatim>\<open>json.JSONDecodeError\<close>, it returns exactly the
  records of the non-empty lines that parse as JSON and pass the schema, in file order,
  and its log holds one skip (with the line number and the reason: not JSON, or rejected
  by the schema) for every other non-empty line, followed by the summary.
\<close>

theorem load_queue_skips_bad_lines:
  assumes stored: "fs path = Some content"
      and decodes: "utf8_decode content = Some decoded"
      and quiet: "\<not> parser_raises loads decoded"
  shows "load_queue loads valid yielded fs path =
           Inr (load_spec loads valid decoded,
                skipped_spec loads valid decoded @
                  [Loaded (length (load_spec loads valid decoded))
                          (length (skipped_spec loads valid decoded))])"
proof -
  let ?ls = "List.enumerate 1 (text_lines decoded)"
  have nr: "\<not> list_ex (\<lambda>(idx, line). case loads line of ParserRaises e \<Rightarrow> True | _ \<Rightarrow> False)
      (nonempty_of ?ls)"
    using quiet by (simp add: parser_raises_def nonempty_lines_def)
  have sk: "skipped_spec loads valid decoded = List.map_filter (skip_event loads valid) (nonempty_of ?ls)"
    by (simp add: skipped_spec_def nonempty_lines_def)
  have ld: "load_spec loads valid decoded =
      List.map_filter (\<lambda>(idx, line). accepted loads valid line) (nonempty_of ?ls)"
    by (simp add: load_spec_def nonempty_lines_def)
  have run: "load_lines loads valid ?ls [] 0 [] =
      Inr (load_spec loads valid decoded, length (nonempty_of ?ls), skipped_spec loads valid decoded)"
    using load_lines_spec [OF nr, of valid "[]" 0 "[]"] by (simp add: sk ld)
  have cnt: "length (nonempty_of ?ls) - length (load_spec loads valid decoded) =
      length (skipped_spec loads valid decoded)"
    using accepted_or_skipped [OF nr, of valid] by (simp add: sk ld)
  show ?thesis
    using stored decodes run cnt by (simp add: load_queue_def)
qed

lemma cp_append: "cp (a @ b) = cp a @ cp b"
  by (simp add: cp_def)

lemma cp_Cons: "cp (c # s) = of_char c # cp s"
  by (simp add: cp_def)

lemma cp_Nil: "cp [] = []"
  by (simp add: cp_def)

lemma sample_lines_plain:
  "cp line_t1 \<noteq> [] \<and> 10 \<notin> set (cp line_t1) \<and> 13 \<notin> set (cp line_t1) \<and>
   cp line_a \<noteq> [] \<and> 10 \<notin> set (cp line_a) \<and> 13 \<notin> set (cp line_a) \<and>
   cp ''{broken'' \<noteq> [] \<and> 10 \<notin> set (cp ''{broken'') \<and> 13 \<notin> set (cp ''{broken'')"
  by (simp add: line_t1_def line_a_def cp_def)

lemma sample_lines_differ:
  "cp line_t1 \<noteq> cp line_a \<and> cp line_a \<noteq> cp line_t1 \<and>
   cp ''{broken'' \<noteq> cp line_t1 \<and> cp ''{broken'' \<noteq> cp line_a"
proof -
  have "length (cp line_t1) \<noteq> length (cp line_a) \<and> length (cp ''{broken'') \<noteq> length (cp line_t1) \<and>
      length (cp ''{broken'') \<noteq> length (cp line_a)"
    by (simp add: line_t1_def line_a_def cp_def)
  then show ?thesis by auto
qed

lemma sample_ascii:
  "\<forall>b\<in>set line_t1. (of_char b :: nat) < 0x80" "\<forall>b\<in>set line_a. (of_char b :: nat) < 0x80"
  by (simp_all add: line_t1_def line_a_def)

lemma sample_decoded: "utf8_decode sample_content = Some (cp sample_content)"
  by (rule utf8_decode_ascii) (use sample_ascii in \<open>simp add: sample_content_def ball_Un\<close>)

lemma sample_text_lines:
  "text_lines (cp sample_content) =
     [cp line_t1 @ [10], cp ''{broken'' @ [10], [10], cp line_a @ [10]]"
proof -
  have "cp sample_content =
      cp line_t1 @ 10 # (cp ''{broken'' @ 10 # (10 # (cp line_a @ 10 # [])))"
    by (simp add: sample_content_def cp_append cp_Cons cp_Nil)
  then show ?thesis
    using sample_lines_plain by (simp add: text_lines_line text_lines_LF)
qed

lemma sample_nonempty_lines:
  "nonempty_lines (cp sample_content) = [(1, cp line_t1), (2, cp ''{broken''), (4, cp line_a)]"
proof -
  have "rstrip_newlines [10] = []"
    by (simp add: rstrip_newlines_def)
  then show ?thesis
    using sample_lines_plain
    by (simp add: nonempty_lines_def nonempty_of_def sample_text_lines rstrip_line)
qed

lemma undecodable: "utf8_decode undecodable_content = None"
proof -
  have "utf8_decode (line_t1 @ [CHR 0x0A] @ CHR 0xFF # [CHR 0x0A]) =
      map_option ((@) (cp (line_t1 @ [CHR 0x0A]))) (utf8_decode (CHR 0xFF # [CHR 0x0A]))"
    using utf8_decode_ascii_prefix [of "line_t1 @ [CHR 0x0A]" "CHR 0xFF # [CHR 0x0A]"] sample_ascii
    by simp
  then show ?thesis
    by (simp add: undecodable_content_def)
qed

lemma long_integer_plain:
  "cp long_integer \<noteq> [] \<and> 10 \<notin> set (cp long_integer) \<and> 13 \<notin> set (cp long_integer) \<and>
   cp line_t1 \<noteq> cp long_integer"
proof -
  have "length (cp line_t1) \<noteq> length (cp long_integer)"
    by (simp add: line_t1_def long_integer_def cp_def)
  then have "cp line_t1 \<noteq> cp long_integer" by auto
  moreover have "set (cp long_integer) = {49}"
    by (simp add: long_integer_def cp_def)
  moreover have "cp long_integer \<noteq> []"
    by (simp add: long_integer_def cp_def)
  ultimately show ?thesis by simp
qed

lemma long_integer_decoded: "utf8_decode long_integer_content = Some (cp long_integer_content)"
  by (rule utf8_decode_ascii)
     (use sample_ascii in \<open>simp add: long_integer_content_def long_integer_def ball_Un\<close>)

lemma long_integer_nonempty_lines:
  "nonempty_lines (cp long_integer_content) = [(1, cp line_t1), (2, cp long_integer)]"
proof -
  have "cp long_integer_content = cp line_t1 @ 10 # (cp long_integer @ 10 # [])"
    by (simp add: long_integer_content_def cp_append cp_Cons cp_Nil)
  then have "text_lines (cp long_integer_content) = [cp line_t1 @ [10], cp long_integer @ [10]]"
    using sample_lines_plain long_integer_plain by (simp add: text_lines_line)
  then show ?thesis
    using sample_lines_plain long_integer_plain
    by (simp add: nonempty_lines_def nonempty_of_def rstrip_line)
qed

text \<open>
  Two queue files whose first line is a valid record. The second line of the first file
  is the byte \<open>0xFF\<close>: the load raises \<^verbatim>\<open>UnicodeDecodeError\<close>. The second line of the
  second file is an integer of 5000 digits: the load raises the \<^verbatim>\<open>ValueError\<close> of
  \<^verbatim>\<open>json.loads\<close>. Neither load returns the record of the first line.
\<close>

theorem load_queue_aborts_witness:
  "undecodable_fs ''queue.jsonl'' = Some undecodable_content \<and>
   load_queue sample_loads is_dict nothing_yielded undecodable_fs ''queue.jsonl'' = Inl UnicodeDecodeError \<and>
   long_integer_fs ''queue.jsonl'' = Some long_integer_content \<and>
   load_queue limited_loads is_dict nothing_yielded long_integer_fs ''queue.jsonl'' = Inl ValueError"
proof -
  have f1: "undecodable_fs ''queue.jsonl'' = Some undecodable_content"
    by (simp add: undecodable_fs_def)
  have f2: "long_integer_fs ''queue.jsonl'' = Some long_integer_content"
    by (simp add: long_integer_fs_def)
  have a: "load_queue sample_loads is_dict nothing_yielded undecodable_fs ''queue.jsonl'' = Inl UnicodeDecodeError"
    using load_queue_aborts [where yielded = nothing_yielded and fs = undecodable_fs and path = "''queue.jsonl''"
        and content = undecodable_content and loads = sample_loads and valid = is_dict, OF f1]
      undecodable
    by (simp add: nothing_yielded_def nonempty_of_def)
  have first: "limited_loads (cp line_t1) = Parsed (JDict sample_task)"
    using long_integer_plain by (simp add: limited_loads_def sample_loads_def)
  have second: "limited_loads (cp long_integer) = ParserRaises ValueError"
    by (simp add: limited_loads_def)
  have raises: "parser_raises limited_loads (cp long_integer_content)"
    by (simp add: parser_raises_def long_integer_nonempty_lines first second)
  from load_queue_aborts [where yielded = nothing_yielded and fs = long_integer_fs and path = "''queue.jsonl''"
      and content = long_integer_content and loads = limited_loads and valid = is_dict, OF f2]
    long_integer_decoded raises
  obtain e idx line where
    m: "(idx, line) \<in> set (nonempty_lines (cp long_integer_content))" and
    r: "limited_loads line = ParserRaises e" and
    l: "load_queue limited_loads is_dict nothing_yielded long_integer_fs ''queue.jsonl'' = Inl e"
    by blast
  from m r first second have "e = ValueError"
    by (auto simp: long_integer_nonempty_lines)
  with l f1 f2 a show ?thesis by simp
qed

text \<open>
  The fourth scenario of the specification: of the two valid lines, the malformed line
  and the empty line, the two records are returned and one skip is logged.
\<close>

theorem load_queue_skips_bad_lines_witness:
  "sample_fs ''queue.jsonl'' = Some sample_content \<and>
   load_queue sample_loads is_dict nothing_yielded sample_fs ''queue.jsonl'' =
     Inr ([JDict sample_task, JDict task_dated], [ParseFailed 2, Loaded 2 1])"
proof -
  have f: "sample_fs ''queue.jsonl'' = Some sample_content"
    by (simp add: sample_fs_def)
  have q: "\<not> parser_raises sample_loads (cp sample_content)"
    using sample_lines_differ
    by (simp add: parser_raises_def sample_nonempty_lines sample_loads_def)
  have l: "load_spec sample_loads is_dict (cp sample_content) = [JDict sample_task, JDict task_dated]"
    using sample_lines_differ
    by (simp add: load_spec_def sample_nonempty_lines map_filter_simps accepted_def
        sample_loads_def is_dict_def)
  have k: "skipped_spec sample_loads is_dict (cp sample_content) = [ParseFailed 2]"
    using sample_lines_differ
    by (simp add: skipped_spec_def skip_event_def sample_nonempty_lines map_filter_simps
        sample_loads_def is_dict_def)
  from load_queue_skips_bad_lines [where yielded = nothing_yielded and fs = sample_fs and path = "''queue.jsonl''"
      and content = sample_content and loads = sample_loads and valid = is_dict,
      OF f sample_decoded q] f l k
  show ?thesis by simp
qed

subsection \<open>Saving\<close>

lemma load_lines_round_trip:
  "\<forall>t\<in>set items. valid t \<and>
      (\<exists>s. dumps t = Inr s \<and> loads s = Parsed t \<and> s \<noteq> [] \<and> 10 \<notin> set s \<and> 13 \<notin> set s) \<Longrightarrow>
   load_lines loads valid (List.enumerate k (map (\<lambda>t. dumped dumps t @ [10]) items)) acc n log =
     Inr (acc @ items, n + length items, log)"
proof (induction items arbitrary: k acc n log)
  case Nil
  show ?case by simp
next
  case (Cons t items)
  from Cons.prems obtain s where s: "dumps t = Inr s" "loads s = Parsed t" "s \<noteq> []"
      "10 \<notin> set s" "13 \<notin> set s" and v: "valid t"
    by auto
  have d: "dumped dumps t = s"
    using s by (simp add: dumped_def)
  have rest: "\<forall>t\<in>set items. valid t \<and>
      (\<exists>s. dumps t = Inr s \<and> loads s = Parsed t \<and> s \<noteq> [] \<and> 10 \<notin> set s \<and> 13 \<notin> set s)"
    using Cons.prems by simp
  show ?case
    using s v Cons.IH [OF rest] by (simp add: d rstrip_line)
qed

text \<open>
  Claim C2, as amended. Let every task of the sequence be accepted by the schema and be
  serialised by \<^verbatim>\<open>json.dumps\<close> to a non-empty text without line ends that
  \<^verbatim>\<open>json.loads\<close> reads back as the same value (what the JSON library gives for a
  record of strings, integers and nulls). Then \<^verbatim>\<open>save_queue_atomic\<close> returns normally
  when nothing fails in the environment and the text of every task can be encoded as
  UTF-8 (it holds no lone surrogate); and whenever it returns normally, \<^verbatim>\<open>load_queue\<close>
  on the same path returns the saved sequence itself, record for record and in order,
  with no line skipped; what the file system held before, at the path or elsewhere,
  plays no part.
\<close>

theorem save_then_load_round_trip:
  assumes lib: "\<forall>t\<in>set items. valid t \<and>
      (\<exists>s. dumps t = Inr s \<and> loads s = Parsed t \<and> s \<noteq> [] \<and> 10 \<notin> set s \<and> 13 \<notin> set s)"
  shows "(faults = no_faults \<and> (\<forall>t\<in>set items. encodable (dumped dumps t)) \<longrightarrow>
            fst (save_queue_atomic dumps faults tmp fs path items) = None) \<and>
         (fst (save_queue_atomic dumps faults tmp fs path items) = None \<longrightarrow>
            load_queue loads valid yielded (snd (save_queue_atomic dumps faults tmp fs path items)) path =
              Inr (items, [Loaded (length items) 0]))"
proof -
  let ?text = "concat (map (\<lambda>t. dumped dumps t @ [10]) items)"
  have a: "fst (save_queue_atomic dumps faults tmp fs path items) = None"
    if nf: "faults = no_faults" and enc: "\<forall>t\<in>set items. encodable (dumped dumps t)"
  proof -
    have "\<forall>t\<in>set items. \<exists>s. dumps t = Inr s \<and> encodable s"
    proof
      fix t assume t: "t \<in> set items"
      with lib obtain s where s: "dumps t = Inr s" by blast
      then have "dumped dumps t = s" by (simp add: dumped_def)
      with enc t s show "\<exists>s. dumps t = Inr s \<and> encodable s" by auto
    qed
    from write_items_no_fault [OF this, of 0 "[]"]
    have "fst (write_items dumps None 0 items []) = None" .
    then show ?thesis
      using nf
      by (cases "write_items dumps None 0 items []")
         (simp add: save_queue_atomic_def no_faults_def)
  qed
  have b: "load_queue loads valid yielded (snd (save_queue_atomic dumps faults tmp fs path items)) path =
              Inr (items, [Loaded (length items) 0])"
    if ok: "fst (save_queue_atomic dumps faults tmp fs path items) = None"
  proof -
    obtain r c where w: "write_items dumps (write_fails_at faults) 0 items [] = (r, c)"
      by (cases "write_items dumps (write_fails_at faults) 0 items []")
    have r: "r = None"
      using ok w by (cases r) (simp_all add: save_queue_atomic_def split: if_splits)
    from write_items_ok [of dumps "write_fails_at faults" 0 items "[]" c] w r
    have enc: "utf8_encode ?text = Some c"
      by auto
    then have dec: "utf8_decode c = Some ?text"
      by (rule utf8_decode_encode)
    have stored: "snd (save_queue_atomic dumps faults tmp fs path items) path = Some c"
      using ok w r by (simp add: save_queue_atomic_def split: if_splits)
    have per: "\<forall>s\<in>set (map (dumped dumps) items). 10 \<notin> set s \<and> 13 \<notin> set s"
    proof
      fix s assume "s \<in> set (map (dumped dumps) items)"
      then obtain t where t: "t \<in> set items" and st: "s = dumped dumps t" by auto
      from lib t obtain s' where s': "dumps t = Inr s'" "10 \<notin> set s'" "13 \<notin> set s'" by blast
      then show "10 \<notin> set s \<and> 13 \<notin> set s"
        using st by (simp add: dumped_def)
    qed
    have "?text = concat (map (\<lambda>s. s @ [10]) (map (dumped dumps) items))"
      by (simp add: comp_def)
    then have lines: "text_lines ?text = map (\<lambda>t. dumped dumps t @ [10]) items"
      using text_lines_concat [OF per] by (simp add: comp_def)
    have "load_lines loads valid (List.enumerate 1 (text_lines ?text)) [] 0 [] =
        Inr (items, length items, [])"
      using load_lines_round_trip [OF lib, of 1 "[]" 0 "[]"] lines by simp
    then show ?thesis
      using stored dec by (simp add: load_queue_def)
  qed
  show ?thesis
  proof (intro conjI impI)
    assume "faults = no_faults \<and> (\<forall>t\<in>set items. encodable (dumped dumps t))"
    then show "fst (save_queue_atomic dumps faults tmp fs path items) = None"
      using a by simp
  next
    assume "fst (save_queue_atomic dumps faults tmp fs path items) = None"
    then show "load_queue loads valid yielded (snd (save_queue_atomic dumps faults tmp fs path items)) path =
              Inr (items, [Loaded (length items) 0])"
      by (rule b)
  qed
qed

text \<open>
  Claim C3 does not hold of the code when the closing of the temporary file fails. The
  two handlers of \<^verbatim>\<open>save_queue_atomic\<close> remove the temporary file, but the
  \<^verbatim>\<open>close\<close> of the \<^verbatim>\<open>finally\<close> block stands outside both: when the file was
  created, written, flushed and synced and this \<^verbatim>\<open>close\<close> raises, the exception
  reaches the caller and every other file is as before, but the temporary file stays
  behind with the complete new content.
\<close>

theorem save_queue_atomic_close_failure:
  assumes created: "\<not> create_fails faults"
      and written: "write_items dumps (write_fails_at faults) 0 items [] = (None, content)"
      and synced: "\<not> flush_fails faults \<and> \<not> fsync_fails faults"
      and closing: "close_fails faults"
  shows "fst (save_queue_atomic dumps faults tmp fs path items) = Some OSError \<and>
         snd (save_queue_atomic dumps faults tmp fs path items) tmp = Some content \<and>
         (\<forall>p. p \<noteq> tmp \<longrightarrow> snd (save_queue_atomic dumps faults tmp fs path items) p = fs p)"
  using assms by (simp add: save_queue_atomic_def)

text \<open>
  What does hold of \<^verbatim>\<open>save_queue_atomic\<close>: let the temporary name be fresh and not
  the target path, and let \<^verbatim>\<open>os.remove\<close> and the \<^verbatim>\<open>close\<close> of the \<^verbatim>\<open>finally\<close>
  block work. Then a failure in any other step (creating the temporary file, serialising,
  encoding or writing a line, flush, fsync, the replace) reaches the caller as an
  exception, and whenever an exception reaches the caller, the whole file system is as
  before the call: the temporary file is gone and the target is untouched.
\<close>

theorem save_queue_atomic_failure:
  assumes fresh: "fs tmp = None" and other: "tmp \<noteq> path"
      and removes: "\<not> remove_fails faults" and closes: "\<not> close_fails faults"
  shows "(create_fails faults \<or> fst (write_items dumps (write_fails_at faults) 0 items []) \<noteq> None \<or>
          flush_fails faults \<or> fsync_fails faults \<or> replace_fails faults \<longrightarrow>
            fst (save_queue_atomic dumps faults tmp fs path items) \<noteq> None) \<and>
         (fst (save_queue_atomic dumps faults tmp fs path items) \<noteq> None \<longrightarrow>
            snd (save_queue_atomic dumps faults tmp fs path items) = fs)"
proof -
  obtain r c where w: "write_items dumps (write_fails_at faults) 0 items [] = (r, c)"
    by (cases "write_items dumps (write_fails_at faults) 0 items []")
  have gone: "fs(tmp := None) = fs"
    using fresh by (simp add: fun_eq_iff)
  show ?thesis
    using w removes closes
    by (cases r) (simp_all add: save_queue_atomic_def remove_temp_def gone)
qed

lemma sample_tasks_differ: "sample_task \<noteq> task_dated"
  by (simp add: sample_task_def task_dated_def)

lemma sample_encodable: "encodable (cp line_t1) \<and> encodable (cp line_a)"
  by (simp add: encodable_def surrogate_def cp_def line_t1_def line_a_def)

text \<open>
  Two sample records are saved over the sample queue file and read back.
\<close>

theorem save_then_load_round_trip_witness:
  "fst (save_queue_atomic sample_dumps no_faults ''tmpq'' sample_fs ''queue.jsonl''
          [JDict sample_task, JDict task_dated]) = None \<and>
   load_queue sample_loads is_dict nothing_yielded
     (snd (save_queue_atomic sample_dumps no_faults ''tmpq'' sample_fs ''queue.jsonl''
             [JDict sample_task, JDict task_dated])) ''queue.jsonl'' =
     Inr ([JDict sample_task, JDict task_dated], [Loaded 2 0])"
proof -
  have lib: "\<forall>t\<in>set [JDict sample_task, JDict task_dated]. is_dict t \<and>
      (\<exists>s. sample_dumps t = Inr s \<and> sample_loads s = Parsed t \<and> s \<noteq> [] \<and>
           10 \<notin> set s \<and> 13 \<notin> set s)"
    using sample_lines_plain sample_lines_differ sample_tasks_differ
    by (simp add: is_dict_def sample_dumps_def sample_loads_def)
  have enc: "\<forall>t\<in>set [JDict sample_task, JDict task_dated]. encodable (dumped sample_dumps t)"
    using sample_encodable sample_tasks_differ
    by (simp add: dumped_def sample_dumps_def)
  from save_then_load_round_trip [where yielded = nothing_yielded and faults = no_faults and tmp = "''tmpq''"
      and fs = sample_fs and path = "''queue.jsonl''", OF lib] enc
  show ?thesis by simp
qed

text \<open>
  Claim C2 as stated fails for the record whose id is a lone surrogate. The record is
  serialised to a line that the JSON reader reads back as the same record, but the line
  cannot be encoded: the save raises \<^verbatim>\<open>UnicodeEncodeError\<close> and leaves no file, and
  the load that follows finds none.
\<close>

theorem save_lone_surrogate_counterexample:
  "any_record [0xD800] \<and>
   id_record_dumps [0xD800] = Inr surrogate_line \<and>
   surrogate_loads surrogate_line = Parsed [0xD800] \<and>
   fst (save_queue_atomic id_record_dumps no_faults ''tmpq'' no_files ''queue.jsonl'' [[0xD800]]) =
     Some UnicodeEncodeError \<and>
   load_queue surrogate_loads any_record nothing_yielded
     (snd (save_queue_atomic id_record_dumps no_faults ''tmpq'' no_files ''queue.jsonl'' [[0xD800]]))
     ''queue.jsonl'' = Inl FileNotFoundError"
proof -
  have enc: "utf8_encode (surrogate_line @ [10]) = None"
    by (simp add: surrogate_line_def cp_def utf8_encode_append utf8_encode_char_def surrogate_def)
  have d: "id_record_dumps [0xD800] = Inr surrogate_line"
    by (simp add: id_record_dumps_def surrogate_line_def)
  have s: "save_queue_atomic id_record_dumps no_faults ''tmpq'' no_files ''queue.jsonl'' [[0xD800]] =
      (Some UnicodeEncodeError, (no_files(''tmpq'' \<mapsto> []))(''tmpq'' := None))"
    by (simp add: save_queue_atomic_def no_faults_def remove_temp_def d enc)
  show ?thesis
    by (simp add: s d any_record_def surrogate_loads_def load_queue_def no_files_def)
qed

text \<open>
  The sample record is written, flushed and synced, and the closing of the temporary
  file fails: the caller sees \<^verbatim>\<open>OSError\<close>, the queue file holds what it held, and
  the temporary file, which did not exist before, holds the line of the record.
\<close>

theorem save_queue_atomic_close_failure_witness:
  "sample_fs ''tmpq'' = None \<and>
   fst (save_queue_atomic sample_dumps (no_faults\<lparr>close_fails := True\<rparr>) ''tmpq'' sample_fs
          ''queue.jsonl'' [JDict sample_task]) = Some OSError \<and>
   snd (save_queue_atomic sample_dumps (no_faults\<lparr>close_fails := True\<rparr>) ''tmpq'' sample_fs
          ''queue.jsonl'' [JDict sample_task]) ''tmpq'' = Some (line_t1 @ [CHR 0x0A]) \<and>
   snd (save_queue_atomic sample_dumps (no_faults\<lparr>close_fails := True\<rparr>) ''tmpq'' sample_fs
          ''queue.jsonl'' [JDict sample_task]) ''queue.jsonl'' = Some sample_content"
proof -
  have enc: "utf8_encode (cp line_t1 @ [10]) = Some (line_t1 @ [CHR 0x0A])"
    using utf8_encode_ascii [of "line_t1 @ [CHR 0x0A]"] sample_ascii
    by (simp add: cp_append cp_Cons cp_Nil)
  have w: "write_items sample_dumps (write_fails_at (no_faults\<lparr>close_fails := True\<rparr>)) 0
      [JDict sample_task] [] = (None, line_t1 @ [CHR 0x0A])"
    by (simp add: no_faults_def sample_dumps_def enc)
  have flags: "\<not> create_fails (no_faults\<lparr>close_fails := True\<rparr>)"
      "\<not> flush_fails (no_faults\<lparr>close_fails := True\<rparr>) \<and>
       \<not> fsync_fails (no_faults\<lparr>close_fails := True\<rparr>)"
      "close_fails (no_faults\<lparr>close_fails := True\<rparr>)"
    by (simp_all add: no_faults_def)
  from save_queue_atomic_close_failure [where tmp = "''tmpq''" and fs = sample_fs
      and path = "''queue.jsonl''", OF flags(1) w flags(2) flags(3)]
  show ?thesis by (simp add: sample_fs_def)
qed

text \<open>
  \<^verbatim>\<open>os.fsync\<close> fails: the caller sees an exception and the file system is as before.
\<close>

theorem save_queue_atomic_failure_witness:
  "sample_fs ''tmpq'' = None \<and>
   fst (save_queue_atomic sample_dumps (no_faults\<lparr>fsync_fails := True\<rparr>) ''tmpq'' sample_fs
          ''queue.jsonl'' [JDict sample_task]) \<noteq> None \<and>
   snd (save_queue_atomic sample_dumps (no_faults\<lparr>fsync_fails := True\<rparr>) ''tmpq'' sample_fs
          ''queue.jsonl'' [JDict sample_task]) = sample_fs"
proof -
  have fresh: "sample_fs ''tmpq'' = None" by (simp add: sample_fs_def)
  have other: "''tmpq'' \<noteq> ''queue.jsonl''" by simp
  have flags: "\<not> remove_fails (no_faults\<lparr>fsync_fails := True\<rparr>)"
      "\<not> close_fails (no_faults\<lparr>fsync_fails := True\<rparr>)"
    by (simp_all add: no_faults_def)
  have f: "fsync_fails (no_faults\<lparr>fsync_fails := True\<rparr>)"
    by (simp add: no_faults_def)
  from save_queue_atomic_failure [where fs = sample_fs and tmp = "''tmpq''"
      and path = "''queue.jsonl''" and faults = "no_faults\<lparr>fsync_fails := True\<rparr>"
      and dumps = sample_dumps and items = "[JDict sample_task]", OF fresh other flags] f fresh
  show ?thesis by simp
qed

section \<open>Block validation\<close>


lemma sum_bind_Inr:
  "sum_bind r f = Inr y \<longleftrightarrow> (\<exists>v. r = Inr v \<and> f v = Inr y)"
  by (cases r) (simp_all add: sum_bind_def)

lemma sum_bind_Inl:
  "sum_bind r f = Inl e \<longleftrightarrow> r = Inl e \<or> (\<exists>v. r = Inr v \<and> f v = Inl e)"
  by (cases r) (simp_all add: sum_bind_def)

lemma flag_Inr:
  "flag strict r c ws = Inr ws' \<Longrightarrow> set ws' \<subseteq> set ws \<union> {Flagged r} \<and> (strict \<longrightarrow> ws' = ws)"
  by (auto simp: flag_def split: if_splits)

lemma flag_Inl:
  "flag strict r c ws = Inl e \<Longrightarrow> strict \<and> c \<and> e = BlockValidationError r"
  by (auto simp: flag_def split: if_splits)

lemma flag_clear: "\<not> c \<Longrightarrow> flag strict r c ws = Inr ws"
  by (simp add: flag_def)

lemma py_len_Inl: "py_len v = Inl e \<Longrightarrow> e = TypeError"
  by (cases v) (simp_all add: py_len_def)

lemma encode_text_Inr:
  "encode_text lib strict text encoding ws = Inr (b, ws') \<Longrightarrow>
     set ws' \<subseteq> set ws \<union> {Flagged Encoding} \<and> (strict \<longrightarrow> ws' = ws)"
  by (auto simp: encode_text_def split: json.splits sum.splits if_splits)

lemma encode_text_Inl:
  "encode_text lib strict text encoding ws = Inl e \<Longrightarrow>
     e = TypeError \<or> e = AttributeError \<or> e = ValueError \<or> e = UnicodeError \<or>
     (strict \<and> e = BlockValidationError Encoding)"
  by (auto simp: encode_text_def codec_exception_def
      split: json.splits sum.splits if_splits codec_failure.splits)

lemma encode_text_ok:
  "encode lib enc s = Inr b \<Longrightarrow> encode_text lib strict (JStr s) (JStr enc) ws = Inr (b, ws)"
  by (simp add: encode_text_def)

lemma size_check_Inr:
  "size_check strict n recorded ws = Inr ws' \<Longrightarrow>
     set ws' \<subseteq> set ws \<union> {Flagged SizeTolerance} \<and> (strict \<longrightarrow> ws' = ws)"
  by (auto simp: size_check_def Let_def split: option.splits if_splits dest: flag_Inr)

lemma size_check_Inl:
  "size_check strict n recorded ws = Inl e \<Longrightarrow>
     e = TypeError \<or> e = OverflowError \<or> (strict \<and> e = BlockValidationError SizeTolerance)"
  by (auto simp: size_check_def Let_def split: option.splits if_splits dest: flag_Inl)

lemma size_check_exact:
  "size_check strict n (JInt n) ws =
     (if float_overflow n then Inl OverflowError
      else if n < 0 then flag strict SizeTolerance True ws else Inr ws)"
  by (simp add: size_check_def as_int_def exceeds_tolerance_def flag_def)

lemma sequence_check_Inr:
  "sequence_check strict seq tot ws = Inr ws' \<Longrightarrow>
     set ws' \<subseteq> set ws \<union> {Flagged SequenceRange} \<and> (strict \<longrightarrow> ws' = ws)"
  by (auto simp: sequence_check_def split: option.splits dest: flag_Inr)

lemma sequence_check_Inl:
  "sequence_check strict seq tot ws = Inl e \<Longrightarrow> strict \<and> e = BlockValidationError SequenceRange"
  by (auto simp: sequence_check_def split: option.splits dest: flag_Inl)

lemma status_note_Inr:
  "status_note status ws = Inr ws' \<Longrightarrow> set ws' \<subseteq> set ws \<union> range StatusNote"
  by (auto simp: status_note_def split: json.splits if_splits)

lemma status_note_Inl: "status_note status ws = Inl e \<Longrightarrow> e = TypeError"
  by (auto simp: status_note_def split: json.splits if_splits)


lemma validate_block_InrD:
  assumes "validate_block lib obj strict = Inr ws"
  shows "\<exists>n ws1 b ws2 ws3 ws4 ws5 ws6.
     py_len (dict_get_default obj ''text'' (JStr [])) = Inr n \<and>
     flag strict TextLength (n > 20000) [] = Inr ws1 \<and>
     encode_text lib strict (dict_get_default obj ''text'' (JStr []))
       (dict_get_default obj ''encoding'' (JStr ''utf-8'')) ws1 = Inr (b, ws2) \<and>
     flag strict SizeBound (int (length b) > 1048576) ws2 = Inr ws3 \<and>
     size_check strict (int (length b)) (dict_get_default obj ''size_bytes'' (JInt 0)) ws3 = Inr ws4 \<and>
     flag strict HashMismatch
       (JStr (sha256_hex lib b) \<noteq> dict_get_default obj ''hash_sha256'' (JStr [])) ws4 = Inr ws5 \<and>
     sequence_check strict (dict_get obj ''seq'') (dict_get obj ''total_seqs'') ws5 = Inr ws6 \<and>
     status_note (dict_get obj ''status'') ws6 = Inr ws"
  using assms
  by (simp add: validate_block_def Let_def sum_bind_Inr split: if_splits)

lemma validate_block_InlD:
  assumes "validate_block lib obj strict = Inl e"
  shows "e = ValidationError \<or> e = TypeError \<or> e = AttributeError \<or> e = ValueError \<or>
     e = UnicodeError \<or> e = OverflowError \<or> (strict \<and> (\<exists>r. e = BlockValidationError r)) "
  using assms
  by (auto simp: validate_block_def Let_def sum_bind_Inl split: if_splits
      dest!: py_len_Inl flag_Inl encode_text_Inl size_check_Inl sequence_check_Inl status_note_Inl)

lemma strict_returns_unflagged:
  assumes "validate_block lib obj True = Inr ws"
  shows "Flagged r \<notin> set ws"
proof -
  from validate_block_InrD [OF assms] obtain n ws1 b ws2 ws3 ws4 ws5 ws6 where
    s1: "flag True TextLength ((n::nat) > 20000) [] = Inr ws1" and
    s2: "encode_text lib True (dict_get_default obj ''text'' (JStr []))
       (dict_get_default obj ''encoding'' (JStr ''utf-8'')) ws1 = Inr (b, ws2)" and
    s3: "flag True SizeBound (int (length b) > 1048576) ws2 = Inr ws3" and
    s4: "size_check True (int (length b)) (dict_get_default obj ''size_bytes'' (JInt 0)) ws3 = Inr ws4" and
    s5: "flag True HashMismatch
       (JStr (sha256_hex lib b) \<noteq> dict_get_default obj ''hash_sha256'' (JStr [])) ws4 = Inr ws5" and
    s6: "sequence_check True (dict_get obj ''seq'') (dict_get obj ''total_seqs'') ws5 = Inr ws6" and
    s7: "status_note (dict_get obj ''status'') ws6 = Inr ws"
    by blast
  have "ws1 = []" using flag_Inr [OF s1] by simp
  then have "ws2 = []" using encode_text_Inr [OF s2] by simp
  then have "ws3 = []" using flag_Inr [OF s3] by simp
  then have "ws4 = []" using size_check_Inr [OF s4] by simp
  then have "ws5 = []" using flag_Inr [OF s5] by simp
  then have "ws6 = []" using sequence_check_Inr [OF s6] by simp
  then show ?thesis using status_note_Inr [OF s7] by auto
qed

lemma soft_never_raises_integrity:
  "validate_block lib obj False \<noteq> Inl (BlockValidationError r)"
  using validate_block_InlD [of lib obj False "BlockValidationError r"] by auto

text \<open>
  Claim C6. For a block file holding a JSON object, \<^verbatim>\<open>read_block\<close> is the validation
  of that object in strict mode when its status is \<^verbatim>\<open>ok\<close>, and the validation in soft
  mode for every other status. Hence a block of status \<^verbatim>\<open>ok\<close> that is returned has no
  flagged rule (a flagged rule raises), and a block of any other status never raises
  \<^verbatim>\<open>BlockValidationError\<close>.
\<close>

theorem read_block_strict_iff_ok:
  assumes stored: "fs path = Some content" and parsed: "loads content = Inr (JDict d)"
  shows "(dict_get d ''status'' = JStr ''ok'' \<longrightarrow>
            read_block lib loads fs path = map_sum (\<lambda>e. e) (Pair d) (validate_block lib d True) \<and>
            (\<forall>ws r. read_block lib loads fs path = Inr (d, ws) \<longrightarrow> Flagged r \<notin> set ws)) \<and>
         (dict_get d ''status'' \<noteq> JStr ''ok'' \<longrightarrow>
            read_block lib loads fs path = map_sum (\<lambda>e. e) (Pair d) (validate_block lib d False) \<and>
            (\<forall>r. read_block lib loads fs path \<noteq> Inl (BlockValidationError r)))"
proof -
  have run: "read_block lib loads fs path =
      map_sum (\<lambda>e. e) (Pair d) (validate_block lib d (dict_get d ''status'' = JStr ''ok''))"
    using stored parsed
    by (cases "dict_get d ''status'' = JStr ''ok''")
       (simp_all add: read_block_def split: sum.splits)
  have a: "Flagged r \<notin> set ws"
    if "dict_get d ''status'' = JStr ''ok''" and "read_block lib loads fs path = Inr (d, ws)" for ws r
  proof -
    have "validate_block lib d True = Inr ws"
      using that run by (cases "validate_block lib d True") simp_all
    then show ?thesis by (rule strict_returns_unflagged)
  qed
  have b: "read_block lib loads fs path \<noteq> Inl (BlockValidationError r)"
    if "dict_get d ''status'' \<noteq> JStr ''ok''" for r
    using that run soft_never_raises_integrity [of lib d r]
    by (cases "validate_block lib d False") simp_all
  show ?thesis using run a b by auto
qed

text \<open>
  Claim C7. Let the text of a record encode under its declared encoding, the recorded
  hash be the SHA-256 digest of the encoded bytes and the recorded size their exact
  number. Then in either mode \<^verbatim>\<open>validate_block\<close> neither raises for the
  size-tolerance rule or the hash rule nor logs a warning for one of them.
\<close>

theorem exact_size_and_hash_never_flagged:
  assumes t_eq: "dict_get_default obj ''text'' (JStr []) = JStr text"
      and e_eq: "dict_get_default obj ''encoding'' (JStr ''utf-8'') = JStr enc"
      and b_eq: "encode lib enc text = Inr b"
      and h_eq: "dict_get_default obj ''hash_sha256'' (JStr []) = JStr (sha256_hex lib b)"
      and s_eq: "dict_get_default obj ''size_bytes'' (JInt 0) = JInt (int (length b))"
  shows "validate_block lib obj strict \<noteq> Inl (BlockValidationError SizeTolerance) \<and>
         validate_block lib obj strict \<noteq> Inl (BlockValidationError HashMismatch) \<and>
         (\<forall>ws. validate_block lib obj strict = Inr ws \<longrightarrow>
            Flagged SizeTolerance \<notin> set ws \<and> Flagged HashMismatch \<notin> set ws)"
proof -
  have sz: "size_check strict (int (length b)) (JInt (int (length b))) ws =
      (if float_overflow (int (length b)) then Inl OverflowError else Inr ws)" for ws
    by (simp add: size_check_exact)
  have hs: "flag strict HashMismatch (JStr (sha256_hex lib b) \<noteq> JStr (sha256_hex lib b)) ws = Inr ws" for ws
    by (simp add: flag_clear)
  have en: "encode_text lib strict (JStr text) (JStr enc) ws = Inr (b, ws)" for ws
    by (simp add: encode_text_ok b_eq)
  have err: "e \<noteq> BlockValidationError SizeTolerance \<and> e \<noteq> BlockValidationError HashMismatch"
    if "validate_block lib obj strict = Inl e" for e
    using that
    by (auto simp: validate_block_def Let_def sum_bind_Inl t_eq e_eq h_eq s_eq sz hs en
        split: if_splits
        dest!: py_len_Inl flag_Inl sequence_check_Inl status_note_Inl)
  have ok: "Flagged SizeTolerance \<notin> set ws \<and> Flagged HashMismatch \<notin> set ws"
    if r: "validate_block lib obj strict = Inr ws" for ws
  proof -
    from validate_block_InrD [OF r] obtain n ws1 b' ws2 ws3 ws4 ws5 ws6 where
      s1: "flag strict TextLength ((n::nat) > 20000) [] = Inr ws1" and
      s2: "encode_text lib strict (JStr text) (JStr enc) ws1 = Inr (b', ws2)" and
      s3: "flag strict SizeBound (int (length b') > 1048576) ws2 = Inr ws3" and
      s4: "size_check strict (int (length b')) (JInt (int (length b))) ws3 = Inr ws4" and
      s5: "flag strict HashMismatch (JStr (sha256_hex lib b') \<noteq> JStr (sha256_hex lib b)) ws4 = Inr ws5" and
      s6: "sequence_check strict (dict_get obj ''seq'') (dict_get obj ''total_seqs'') ws5 = Inr ws6" and
      s7: "status_note (dict_get obj ''status'') ws6 = Inr ws"
      unfolding t_eq e_eq h_eq s_eq by blast
    have bb: "b' = b" and w2: "ws2 = ws1" using s2 en by simp_all
    have w4: "ws4 = ws3" using s4 sz [of ws3] bb by (simp split: if_splits)
    have w5: "ws5 = ws4" using s5 hs bb by simp
    have "set ws1 \<subseteq> {Flagged TextLength}" using flag_Inr [OF s1] by simp
    then have "set ws3 \<subseteq> {Flagged TextLength, Flagged SizeBound}"
      using flag_Inr [OF s3] w2 by auto
    then have "set ws6 \<subseteq> {Flagged TextLength, Flagged SizeBound, Flagged SequenceRange}"
      using sequence_check_Inr [OF s6] w4 w5 by auto
    then have "set ws \<subseteq> {Flagged TextLength, Flagged SizeBound, Flagged SequenceRange} \<union> range StatusNote"
      using status_note_Inr [OF s7] by auto
    then show ?thesis by auto
  qed
  show ?thesis using err ok by blast
qed


lemma validate_sample_block: "validate_block sample_block_lib sample_block strict = Inr []"
  by (simp add: validate_block_def sample_block_lib_def sample_block_def dict_get_def
      dict_get_default_def sum_bind_def py_len_def flag_def encode_text_def size_check_def
      as_int_def exceeds_tolerance_def float_overflow_def sequence_check_def status_note_def
      hi_digest_def)

lemma validate_damaged_block:
  "validate_block sample_block_lib damaged_block False =
     Inr [Flagged SizeTolerance, StatusNote ''damaged'']"
  by (simp add: validate_block_def sample_block_lib_def damaged_block_def dict_get_def
      dict_get_default_def sum_bind_def py_len_def flag_def encode_text_def size_check_def
      as_int_def exceeds_tolerance_def float_overflow_def sequence_check_def status_note_def
      hi_digest_def)

lemma validate_missized_block:
  "validate_block sample_block_lib missized_block True = Inl (BlockValidationError SizeTolerance)"
  by (simp add: validate_block_def sample_block_lib_def missized_block_def dict_get_def
      dict_get_default_def sum_bind_def py_len_def flag_def encode_text_def size_check_def
      as_int_def exceeds_tolerance_def float_overflow_def sequence_check_def status_note_def
      hi_digest_def)

text \<open>
  The two scenarios on blocks: the clean block of status \<^verbatim>\<open>ok\<close> is returned without
  warnings; the block of recorded size 100 is returned with a warning when its status is
  \<^verbatim>\<open>damaged\<close> and raises when its status is \<^verbatim>\<open>ok\<close>.
\<close>

theorem read_block_strict_iff_ok_witness:
  "read_block sample_block_lib block_loads block_fs ''b1.json'' = Inr (sample_block, []) \<and>
   read_block sample_block_lib block_loads block_fs ''b2.json'' =
     Inr (damaged_block, [Flagged SizeTolerance, StatusNote ''damaged'']) \<and>
   read_block sample_block_lib block_loads block_fs ''b3.json'' =
     Inl (BlockValidationError SizeTolerance)"
proof -
  have f1: "block_fs ''b1.json'' = Some ''block b1''" and l1: "block_loads ''block b1'' = Inr (JDict sample_block)"
    and f2: "block_fs ''b2.json'' = Some ''block b2''" and l2: "block_loads ''block b2'' = Inr (JDict damaged_block)"
    and f3: "block_fs ''b3.json'' = Some ''block b3''" and l3: "block_loads ''block b3'' = Inr (JDict missized_block)"
    by (simp_all add: block_fs_def block_loads_def)
  have s1: "dict_get sample_block ''status'' = JStr ''ok''"
    and s2: "dict_get damaged_block ''status'' \<noteq> JStr ''ok''"
    and s3: "dict_get missized_block ''status'' = JStr ''ok''"
    by (simp_all add: sample_block_def damaged_block_def missized_block_def dict_get_def)
  have r1: "read_block sample_block_lib block_loads block_fs ''b1.json'' = Inr (sample_block, [])"
    using read_block_strict_iff_ok [where fs = block_fs and path = "''b1.json''"
        and content = "''block b1''" and loads = block_loads and d = sample_block
        and lib = sample_block_lib, OF f1 l1] s1
    by (simp add: validate_sample_block)
  have r2: "read_block sample_block_lib block_loads block_fs ''b2.json'' =
      Inr (damaged_block, [Flagged SizeTolerance, StatusNote ''damaged''])"
    using read_block_strict_iff_ok [where fs = block_fs and path = "''b2.json''"
        and content = "''block b2''" and loads = block_loads and d = damaged_block
        and lib = sample_block_lib, OF f2 l2] s2
    by (simp add: validate_damaged_block)
  have r3: "read_block sample_block_lib block_loads block_fs ''b3.json'' =
      Inl (BlockValidationError SizeTolerance)"
    using read_block_strict_iff_ok [where fs = block_fs and path = "''b3.json''"
        and content = "''block b3''" and loads = block_loads and d = missized_block
        and lib = sample_block_lib, OF f3 l3] s3
    by (simp add: validate_missized_block)
  from r1 r2 r3 show ?thesis by simp
qed

text \<open>
  The block of the first scenario meets the hypotheses, in strict and in soft mode.
\<close>

theorem exact_size_and_hash_never_flagged_witness:
  "encode sample_block_lib ''utf-8'' ''hi'' = Inr ''hi'' \<and>
   dict_get_default sample_block ''size_bytes'' (JInt 0) = JInt (int (length ''hi'')) \<and>
   dict_get_default sample_block ''hash_sha256'' (JStr []) = JStr (sha256_hex sample_block_lib ''hi'') \<and>
   validate_block sample_block_lib sample_block True \<noteq> Inl (BlockValidationError SizeTolerance) \<and>
   validate_block sample_block_lib sample_block True \<noteq> Inl (BlockValidationError HashMismatch) \<and>
   validate_block sample_block_lib sample_block False \<noteq> Inl (BlockValidationError SizeTolerance) \<and>
   validate_block sample_block_lib sample_block False \<noteq> Inl (BlockValidationError HashMismatch)"
proof -
  have t: "dict_get_default sample_block ''text'' (JStr []) = JStr ''hi''"
    and e: "dict_get_default sample_block ''encoding'' (JStr ''utf-8'') = JStr ''utf-8''"
    and b: "encode sample_block_lib ''utf-8'' ''hi'' = Inr ''hi''"
    and h: "dict_get_default sample_block ''hash_sha256'' (JStr []) =
            JStr (sha256_hex sample_block_lib ''hi'')"
    and z: "dict_get_default sample_block ''size_bytes'' (JInt 0) = JInt (int (length ''hi''))"
    by (simp_all add: sample_block_def sample_block_lib_def dict_get_default_def)
  from exact_size_and_hash_never_flagged [OF t e b h z, of True]
       exact_size_and_hash_never_flagged [OF t e b h z, of False] b h z
  show ?thesis by simp
qed

section \<open>Result and error files\<close>

lemma suffixed_differs: "suffixed_error_file base_dir block_id ts \<noteq> error_file base_dir block_id"
  by (simp add: suffixed_error_file_def error_file_def join_path_def)

lemma suffixed_inj:
  "suffixed_error_file base_dir block_id ts = suffixed_error_file base_dir block_id ts' \<longleftrightarrow>
   suffix_ts ts = suffix_ts ts'"
  by (simp add: suffixed_error_file_def join_path_def)

lemma archive_paths:
  "result_file ''/data'' ''b1'' = ''/data/Archive/AnalysisResults/b1.json''"
  "error_file ''/data'' ''b1'' = ''/data/Archive/AnalysisErrors/b1.json''"
  "suffixed_error_file ''/data'' ''b1'' ''2024-01-01T00:00:00Z'' =
     ''/data/Archive/AnalysisErrors/b1__20240101T000000Z.json''"
  "suffixed_error_file ''/data'' ''b1'' ''2024-01-02T00:00:00Z'' =
     ''/data/Archive/AnalysisErrors/b1__20240102T000000Z.json''"
  by (simp_all add: result_file_def error_file_def suffixed_error_file_def suffix_ts_def
      remove_char_def join_path_def errors_dir_def)

lemma archive_files:
  "archive_fs (result_file ''/data'' ''b1'') = Some ''first result''"
  "archive_fs (error_file ''/data'' ''b1'') = Some ''first failure''"
  "archive_fs (suffixed_error_file ''/data'' ''b1'' ''2024-01-01T00:00:00Z'') = Some ''second failure''"
  "archive_fs (suffixed_error_file ''/data'' ''b1'' ''2024-01-02T00:00:00Z'') = None"
  by (simp_all add: archive_paths archive_fs_def)

lemma sample_report:
  "error_ok sample_writer_lib (error_object ''b1'' ''t1'' ''Network'' ''third failure'' None ts)"
  "report_dumps sample_writer_lib
     (error_object ''b1'' ''t1'' ''Network'' ''third failure'' None ts) = Inr ''third failure''"
  "\<not> open_fails no_write_faults" "\<not> dump_fails no_write_faults"
  by (simp_all add: sample_writer_lib_def error_object_def dict_get_def no_write_faults_def)

text \<open>
  Claim C9 does not hold of \<^verbatim>\<open>write_error\<close>: the name derived from the time stamp is
  not free of collisions, and nothing looks whether the file of that name exists. When
  the error file \<^verbatim>\<open><block_id>.json\<close> exists and validation and writing succeed,
  \<^verbatim>\<open>write_error\<close> returns the path named after the time stamp, and the file there,
  which is the file of every time stamp that reads the same once \<^verbatim>\<open>-\<close> and \<^verbatim>\<open>:\<close>
  are removed, holds the new report whatever it held before: an earlier report at that
  path is lost, against the module's word that further errors are written with a time
  stamp suffix to preserve history.
\<close>

theorem write_error_overwrites_earlier_report:
  assumes first: "fs (error_file base_dir block_id) \<noteq> None"
      and accepted: "error_ok lib (error_object block_id task_id etype detail response ts)"
      and serialised: "report_dumps lib (error_object block_id task_id etype detail response ts) = Inr s"
      and works: "\<not> open_fails faults \<and> \<not> dump_fails faults"
  shows "fst (write_error lib faults fs base_dir block_id task_id etype detail response ts) =
           Inr (suffixed_error_file base_dir block_id ts) \<and>
         (\<forall>ts'. suffix_ts ts' = suffix_ts ts \<longrightarrow>
            snd (write_error lib faults fs base_dir block_id task_id etype detail response ts)
              (suffixed_error_file base_dir block_id ts') = Some s)"
proof -
  have run: "write_error lib faults fs base_dir block_id task_id etype detail response ts =
      (Inr (suffixed_error_file base_dir block_id ts),
       fs(suffixed_error_file base_dir block_id ts \<mapsto> s))"
    using assms by (simp add: write_error_def Let_def)
  show ?thesis
    by (simp add: run suffixed_inj)
qed

text \<open>
  What does hold of \<^verbatim>\<open>write_result\<close>: when the result file of a block exists, no file
  is changed, and the existing path is returned when both schema validations pass
  (the validations come first: when one of them fails, \<^verbatim>\<open>ValidationError\<close> is raised).
\<close>

theorem write_result_keeps_existing:
  assumes present: "fs (result_file base_dir block_id) \<noteq> None"
  shows "write_result lib faults fs base_dir block_id model version analysis completed =
           (if payload_ok lib analysis \<and>
               result_ok lib (result_object block_id model completed version analysis)
            then Inr (result_file base_dir block_id) else Inl ValidationError, fs)"
  using present by (simp add: write_result_def Let_def)

text \<open>
  What does hold of \<^verbatim>\<open>write_error\<close>: when the error file \<^verbatim>\<open><block_id>.json\<close> exists,
  the path named after the time stamp is not the path of that file, it differs from the
  path of every time stamp that differs once \<^verbatim>\<open>-\<close> and \<^verbatim>\<open>:\<close> are removed, and
  every file at another path is as before, whatever else happens: the first report and
  the reports of other time stamps are retained.
\<close>

theorem write_error_keeps_other_reports:
  assumes first: "fs (error_file base_dir block_id) \<noteq> None"
  shows "suffixed_error_file base_dir block_id ts \<noteq> error_file base_dir block_id \<and>
         (\<forall>ts'. suffix_ts ts' \<noteq> suffix_ts ts \<longrightarrow>
            suffixed_error_file base_dir block_id ts \<noteq> suffixed_error_file base_dir block_id ts') \<and>
         (\<forall>q. q \<noteq> suffixed_error_file base_dir block_id ts \<longrightarrow>
            snd (write_error lib faults fs base_dir block_id task_id etype detail response ts) q = fs q)"
proof (intro conjI allI impI)
  show "suffixed_error_file base_dir block_id ts \<noteq> error_file base_dir block_id"
    by (rule suffixed_differs)
next
  fix ts' assume "suffix_ts ts' \<noteq> suffix_ts ts"
  then show "suffixed_error_file base_dir block_id ts \<noteq> suffixed_error_file base_dir block_id ts'"
    by (simp add: suffixed_inj)
next
  fix q assume "q \<noteq> suffixed_error_file base_dir block_id ts"
  then show "snd (write_error lib faults fs base_dir block_id task_id etype detail response ts) q = fs q"
    using first by (auto simp: write_error_def Let_def split: sum.splits)
qed

text \<open>
  In the sample archive block \<^verbatim>\<open>b1\<close> has a first error report and a second one,
  written at \<^verbatim>\<open>2024-01-01T00:00:00Z\<close>. A third error with the same time stamp is
  written over the second report.
\<close>

theorem write_error_overwrites_earlier_report_witness:
  "archive_fs (error_file ''/data'' ''b1'') = Some ''first failure'' \<and>
   archive_fs (suffixed_error_file ''/data'' ''b1'' ''2024-01-01T00:00:00Z'') = Some ''second failure'' \<and>
   fst (write_error sample_writer_lib no_write_faults archive_fs ''/data'' ''b1'' ''t1'' ''Network''
          ''third failure'' None ''2024-01-01T00:00:00Z'') =
     Inr ''/data/Archive/AnalysisErrors/b1__20240101T000000Z.json'' \<and>
   snd (write_error sample_writer_lib no_write_faults archive_fs ''/data'' ''b1'' ''t1'' ''Network''
          ''third failure'' None ''2024-01-01T00:00:00Z'')
       ''/data/Archive/AnalysisErrors/b1__20240101T000000Z.json'' = Some ''third failure''"
proof -
  have first: "archive_fs (error_file ''/data'' ''b1'') \<noteq> None"
    by (simp add: archive_files)
  have works: "\<not> open_fails no_write_faults \<and> \<not> dump_fails no_write_faults"
    by (simp add: sample_report)
  from write_error_overwrites_earlier_report [where fs = archive_fs and base_dir = "''/data''"
      and block_id = "''b1''" and lib = sample_writer_lib and faults = no_write_faults
      and ts = "''2024-01-01T00:00:00Z''" and task_id = "''t1''" and etype = "''Network''"
      and detail = "''third failure''" and response = None and s = "''third failure''",
      OF first sample_report(1) sample_report(2) works]
  have r: "fst (write_error sample_writer_lib no_write_faults archive_fs ''/data'' ''b1'' ''t1''
          ''Network'' ''third failure'' None ''2024-01-01T00:00:00Z'') =
        Inr (suffixed_error_file ''/data'' ''b1'' ''2024-01-01T00:00:00Z'')"
    and o: "snd (write_error sample_writer_lib no_write_faults archive_fs ''/data'' ''b1'' ''t1''
          ''Network'' ''third failure'' None ''2024-01-01T00:00:00Z'')
          (suffixed_error_file ''/data'' ''b1'' ''2024-01-01T00:00:00Z'') = Some ''third failure''"
    by simp_all
  show ?thesis
    using r o by (simp add: archive_files) (simp add: archive_paths)
qed

text \<open>
  In the sample archive a second result for \<^verbatim>\<open>b1\<close> changes nothing and returns the
  path of the first; a second result whose payload the schema rejects changes nothing
  either and raises \<^verbatim>\<open>ValidationError\<close>.
\<close>

theorem write_result_keeps_existing_witness:
  "archive_fs (result_file ''/data'' ''b1'') = Some ''first result'' \<and>
   write_result sample_writer_lib no_write_faults archive_fs ''/data'' ''b1'' ''model'' ''v1''
       (JDict []) ''2024-01-02T00:00:00Z'' =
     (Inr ''/data/Archive/AnalysisResults/b1.json'', archive_fs) \<and>
   write_result checking_writer_lib no_write_faults archive_fs ''/data'' ''b1'' ''model'' ''v1''
       JNull ''2024-01-02T00:00:00Z'' =
     (Inl ValidationError, archive_fs)"
proof -
  have present: "archive_fs (result_file ''/data'' ''b1'') \<noteq> None"
    by (simp add: archive_files)
  have a: "write_result sample_writer_lib no_write_faults archive_fs ''/data'' ''b1'' ''model'' ''v1''
       (JDict []) ''2024-01-02T00:00:00Z'' =
     (Inr ''/data/Archive/AnalysisResults/b1.json'', archive_fs)"
    using write_result_keeps_existing [where fs = archive_fs and base_dir = "''/data''"
      and block_id = "''b1''" and lib = sample_writer_lib and faults = no_write_faults
      and model = "''model''" and version = "''v1''" and analysis = "JDict []"
      and completed = "''2024-01-02T00:00:00Z''", OF present]
    by (simp add: sample_writer_lib_def archive_paths)
  have b: "write_result checking_writer_lib no_write_faults archive_fs ''/data'' ''b1'' ''model'' ''v1''
       JNull ''2024-01-02T00:00:00Z'' = (Inl ValidationError, archive_fs)"
    using write_result_keeps_existing [where fs = archive_fs and base_dir = "''/data''"
      and block_id = "''b1''" and lib = checking_writer_lib and faults = no_write_faults
      and model = "''model''" and version = "''v1''" and analysis = JNull
      and completed = "''2024-01-02T00:00:00Z''", OF present]
    by (simp add: checking_writer_lib_def sample_writer_lib_def is_dict_def)
  show ?thesis
    using a b by (simp add: archive_files)
qed

text \<open>
  In the sample archive a third error with a new time stamp gets a file of its own, and
  the two earlier reports are retained.
\<close>

theorem write_error_keeps_other_reports_witness:
  "archive_fs (error_file ''/data'' ''b1'') = Some ''first failure'' \<and>
   snd (write_error sample_writer_lib no_write_faults archive_fs ''/data'' ''b1'' ''t1'' ''Network''
          ''third failure'' None ''2024-01-02T00:00:00Z'')
       (error_file ''/data'' ''b1'') = Some ''first failure'' \<and>
   snd (write_error sample_writer_lib no_write_faults archive_fs ''/data'' ''b1'' ''t1'' ''Network''
          ''third failure'' None ''2024-01-02T00:00:00Z'')
       (suffixed_error_file ''/data'' ''b1'' ''2024-01-01T00:00:00Z'') = Some ''second failure''"
proof -
  have first: "archive_fs (error_file ''/data'' ''b1'') \<noteq> None"
    by (simp add: archive_files)
  have d: "suffix_ts ''2024-01-01T00:00:00Z'' \<noteq> suffix_ts ''2024-01-02T00:00:00Z''"
    by (simp add: suffix_ts_def remove_char_def)
  note inst = write_error_keeps_other_reports [where fs = archive_fs and base_dir = "''/data''"
      and block_id = "''b1''" and lib = sample_writer_lib and faults = no_write_faults
      and ts = "''2024-01-02T00:00:00Z''" and task_id = "''t1''" and etype = "''Network''"
      and detail = "''third failure''" and response = None, OF first]
  from inst have "suffixed_error_file ''/data'' ''b1'' ''2024-01-02T00:00:00Z'' \<noteq> error_file ''/data'' ''b1''"
    by (rule conjunct1)
  then have a: "error_file ''/data'' ''b1'' \<noteq> suffixed_error_file ''/data'' ''b1'' ''2024-01-02T00:00:00Z''"
    by (rule not_sym)
  from inst d have b: "suffixed_error_file ''/data'' ''b1'' ''2024-01-01T00:00:00Z'' \<noteq>
      suffixed_error_file ''/data'' ''b1'' ''2024-01-02T00:00:00Z''"
    by (simp add: suffixed_inj)
  from inst a have "snd (write_error sample_writer_lib no_write_faults archive_fs ''/data'' ''b1'' ''t1''
      ''Network'' ''third failure'' None ''2024-01-02T00:00:00Z'') (error_file ''/data'' ''b1'') =
      archive_fs (error_file ''/data'' ''b1'')"
    by blast
  moreover from inst b have "snd (write_error sample_writer_lib no_write_faults archive_fs ''/data''
      ''b1'' ''t1'' ''Network'' ''third failure'' None ''2024-01-02T00:00:00Z'')
      (suffixed_error_file ''/data'' ''b1'' ''2024-01-01T00:00:00Z'') =
      archive_fs (suffixed_error_file ''/data'' ''b1'' ''2024-01-01T00:00:00Z'')"
    by blast
  ultimately show ?thesis
    by (simp add: archive_files)
qed


end
